theory Spec2Isabelle
  imports Complex_Main "HOL-Library.Multiset" "HOL-Library.Option_ord" "HOL-Library.AList"
begin

section \<open>JavaScript numbers\<close>

text \<open>
  A JavaScript number is an IEEE-754 double. Finite doubles are modelled by the rational
  they denote, next to \<open>NaN\<close> and the two infinities. Negative zero is identified with
  zero (the aggregation code never distinguishes them: \<open>-0 !== 0\<close> is false and
  \<open>-0 || 0\<close> is \<open>0\<close>). Every arithmetic result is rounded to the nearest double, ties to
  even, by \<open>fl\<close>, so the order of additions is visible in the model as it is in the
  program.
\<close>

datatype jsnum = NaN | PInf | NInf | Fin rat

definition pow2 :: "int \<Rightarrow> rat" where
  "pow2 k = (if 0 \<le> k then 2 ^ nat k else 1 / 2 ^ nat (- k))"

text \<open>\<open>ilog2 a\<close> is \<open>\<lfloor>log\<^sub>2 a\<rfloor>\<close> for a positive rational \<open>a\<close>, by halving and doubling.\<close>

function ilog2 :: "rat \<Rightarrow> int" where
  "ilog2 a = (if a \<le> 0 then 0 else if 2 \<le> a then ilog2 (a / 2) + 1
              else if a < 1 then ilog2 (a * 2) - 1 else 0)"
  by pat_completeness auto
termination
proof (relation "measure (\<lambda>a. if 1 \<le> a then nat \<lfloor>a\<rfloor> else nat \<lceil>1 / a\<rceil>)")
  show "wf (measure (\<lambda>a::rat. if 1 \<le> a then nat \<lfloor>a\<rfloor> else nat \<lceil>1 / a\<rceil>))" by simp
next
  fix a :: rat assume a: "\<not> a \<le> 0" "2 \<le> a"
  have "a / 2 \<le> a - 1" using a by simp
  then have "\<lfloor>a / 2\<rfloor> \<le> \<lfloor>a - 1\<rfloor>" by (rule floor_mono)
  then have lt: "\<lfloor>a / 2\<rfloor> < \<lfloor>a\<rfloor>" by simp
  have pos: "0 < \<lfloor>a\<rfloor>" using a by (simp add: less_floor_iff)
  have ge: "1 \<le> a / 2" "1 \<le> a" using a by simp_all
  have "nat \<lfloor>a / 2\<rfloor> < nat \<lfloor>a\<rfloor>" using lt pos by linarith
  with ge show "(a / 2, a) \<in> measure (\<lambda>a. if 1 \<le> a then nat \<lfloor>a\<rfloor> else nat \<lceil>1 / a\<rceil>)"
    by (simp only: in_measure if_True)
next
  fix a :: rat assume a: "\<not> a \<le> 0" "\<not> 2 \<le> a" "a < 1"
  then have inv: "1 < 1 / a" by simp
  then have c2: "2 \<le> \<lceil>1 / a\<rceil>" by (simp add: le_ceiling_iff)
  then have c2': "(2::rat) \<le> of_int \<lceil>1 / a\<rceil>" by (metis of_int_le_iff of_int_numeral)
  have na: "\<not> 1 \<le> a" using a by simp
  show "(a * 2, a) \<in> measure (\<lambda>a. if 1 \<le> a then nat \<lfloor>a\<rfloor> else nat \<lceil>1 / a\<rceil>)"
  proof (cases "1 \<le> a * 2")
    case True
    have "a * 2 < of_int 2" using a by simp
    then have "\<lfloor>a * 2\<rfloor> < 2" by (simp only: floor_less_iff)
    then have "nat \<lfloor>a * 2\<rfloor> < nat \<lceil>1 / a\<rceil>" using c2 by linarith
    with True na show ?thesis by (simp only: in_measure if_True if_False)
  next
    case False
    have "1 / (a * 2) = (1 / a) / 2" by simp
    also have "\<dots> \<le> of_int \<lceil>1 / a\<rceil> / 2"
      by (rule divide_right_mono) simp_all
    also have "\<dots> \<le> of_int (\<lceil>1 / a\<rceil> - 1)"
      using c2' by simp
    finally have "\<lceil>1 / (a * 2)\<rceil> \<le> \<lceil>1 / a\<rceil> - 1"
      by (simp only: ceiling_le_iff)
    then have "nat \<lceil>1 / (a * 2)\<rceil> < nat \<lceil>1 / a\<rceil>" using c2 by linarith
    with False na show ?thesis by (simp only: in_measure if_True if_False)
  qed
qed

declare ilog2.simps [simp del]

definition roundTiesToEven :: "rat \<Rightarrow> int" where
  "roundTiesToEven q =
     (let f = \<lfloor>q\<rfloor>; r = q - of_int f
      in if r < 1 / 2 then f else if 1 / 2 < r then f + 1 else if even f then f else f + 1)"

text \<open>
  Rounding of an exact result to binary64. \<open>round_at e x\<close> rounds \<open>x\<close>, whose magnitude
  lies in \<open>[2\<^sup>e, 2\<^sup>e\<^sup>+\<^sup>1)\<close>, to 53 significant bits; exponents stop at \<open>-1022\<close> (below that
  the spacing of the subnormal range is kept), and a result of \<open>2\<^sup>1\<^sup>0\<^sup>2\<^sup>4\<close> or more overflows
  to an infinity.
\<close>

definition round_at :: "int \<Rightarrow> rat \<Rightarrow> jsnum" where
  "round_at e x =
     (let u = pow2 (max e (- 1022) - 52);
          m = of_int (roundTiesToEven (\<bar>x\<bar> / u)) * u
      in if pow2 1024 \<le> m then (if 0 < x then PInf else NInf)
         else Fin (if 0 < x then m else - m))"

definition fl :: "rat \<Rightarrow> jsnum" where
  "fl x = (if x = 0 then Fin 0 else round_at (ilog2 \<bar>x\<bar>) x)"

text \<open>The operators \<open>+\<close>, \<open>*\<close>, \<open>/\<close> and \<open>Math.floor\<close> on numbers.\<close>

fun js_add :: "jsnum \<Rightarrow> jsnum \<Rightarrow> jsnum" where
  "js_add NaN _ = NaN"
| "js_add _ NaN = NaN"
| "js_add PInf NInf = NaN"
| "js_add NInf PInf = NaN"
| "js_add PInf _ = PInf"
| "js_add _ PInf = PInf"
| "js_add NInf _ = NInf"
| "js_add _ NInf = NInf"
| "js_add (Fin a) (Fin b) = fl (a + b)"

definition js_sgn :: "jsnum \<Rightarrow> int" where
  "js_sgn x = (case x of NaN \<Rightarrow> 0 | PInf \<Rightarrow> 1 | NInf \<Rightarrow> - 1
                | Fin a \<Rightarrow> (if a < 0 then - 1 else 1))"

definition js_inf :: "jsnum \<Rightarrow> bool" where
  "js_inf x = (x = PInf \<or> x = NInf)"

definition js_mul :: "jsnum \<Rightarrow> jsnum \<Rightarrow> jsnum" where
  "js_mul x y =
     (case (x, y) of
        (Fin a, Fin b) \<Rightarrow> fl (a * b)
      | _ \<Rightarrow> if x = NaN \<or> y = NaN \<or> x = Fin 0 \<or> y = Fin 0 then NaN
             else if js_sgn x * js_sgn y < 0 then NInf else PInf)"

definition js_div :: "jsnum \<Rightarrow> jsnum \<Rightarrow> jsnum" where
  "js_div x y =
     (if x = NaN \<or> y = NaN \<or> (js_inf x \<and> js_inf y) \<or> (x = Fin 0 \<and> y = Fin 0) then NaN
      else if js_inf y then Fin 0
      else if js_inf x \<or> y = Fin 0 then (if js_sgn x * js_sgn y < 0 then NInf else PInf)
      else case (x, y) of (Fin a, Fin b) \<Rightarrow> fl (a / b) | _ \<Rightarrow> NaN)"

definition Math_floor :: "jsnum \<Rightarrow> jsnum" where
  "Math_floor x = (case x of Fin a \<Rightarrow> Fin (of_int \<lfloor>a\<rfloor>) | _ \<Rightarrow> x)"

text \<open>\<open>x || 0\<close> on a number: \<open>NaN\<close> and \<open>0\<close> are falsy.\<close>

definition or0 :: "jsnum \<Rightarrow> jsnum" where
  "or0 x = (if x = NaN \<or> x = Fin 0 then Fin 0 else x)"

text \<open>\<open>values.reduce((sum, val) => sum + val, 0) / values.length\<close>.\<close>

definition js_sum :: "jsnum list \<Rightarrow> jsnum" where
  "js_sum vs = foldl js_add (Fin 0) vs"

definition js_mean :: "jsnum list \<Rightarrow> jsnum" where
  "js_mean vs = js_div (js_sum vs) (Fin (of_nat (length vs)))"

section \<open>Strings as numbers\<close>

text \<open>
  \<open>Number(s)\<close> on a string follows the StringNumericLiteral grammar of ECMAScript:
  surrounding white space is dropped, the empty string is \<open>0\<close>, then an optionally signed
  decimal literal or \<open>Infinity\<close>, or an unsigned hexadecimal, octal or binary integer
  literal; anything else is \<open>NaN\<close>. A string is a list of code units below 256 here
  (\<open>char\<close> has eight bits), so the strings of the model are the JavaScript strings over
  U+0000 .. U+00FF. In this range the white space and line terminators that \<open>Number\<close>
  strips are tab, line feed, vertical tab, form feed, carriage return, space and the
  no-break space U+00A0; the others (U+FEFF, U+2028, U+2029 and the remaining space
  separators) lie above U+00FF and cannot occur in a string of the model.
\<close>

definition isWhiteSpace :: "char \<Rightarrow> bool" where
  "isWhiteSpace c = (of_char c \<in> {9, 10, 11, 12, 13, 32, 160 :: nat})"

definition trimString :: "string \<Rightarrow> string" where
  "trimString s = rev (dropWhile isWhiteSpace (rev (dropWhile isWhiteSpace s)))"

definition digitOf :: "char \<Rightarrow> nat option" where
  "digitOf c =
     (let n = (of_char c :: nat)
      in if 48 \<le> n \<and> n \<le> 57 then Some (n - 48)
         else if 97 \<le> n \<and> n \<le> 102 then Some (n - 87)
         else if 65 \<le> n \<and> n \<le> 70 then Some (n - 55)
         else None)"

definition isDigit :: "nat \<Rightarrow> char \<Rightarrow> bool" where
  "isDigit base c = (case digitOf c of None \<Rightarrow> False | Some d \<Rightarrow> d < base)"

definition digitsVal :: "nat \<Rightarrow> string \<Rightarrow> nat" where
  "digitsVal base ds = foldl (\<lambda>a c. base * a + (case digitOf c of None \<Rightarrow> 0 | Some d \<Rightarrow> d)) 0 ds"

definition parseNonDecimal :: "string \<Rightarrow> nat option" where
  "parseNonDecimal s =
     (case s of
        z # p # ds \<Rightarrow>
          (let base = (if p = CHR ''x'' \<or> p = CHR ''X'' then 16
                       else if p = CHR ''o'' \<or> p = CHR ''O'' then 8
                       else if p = CHR ''b'' \<or> p = CHR ''B'' then 2 else 0)
           in if z = CHR ''0'' \<and> base \<noteq> 0 \<and> ds \<noteq> [] \<and> list_all (isDigit base) ds
              then Some (digitsVal base ds) else None)
      | _ \<Rightarrow> None)"

definition splitSign :: "string \<Rightarrow> bool \<times> string" where
  "splitSign s =
     (case s of [] \<Rightarrow> (False, s)
      | c # r \<Rightarrow> if c = CHR ''+'' then (False, r) else if c = CHR ''-'' then (True, r)
                 else (False, s))"

definition parseExponent :: "string \<Rightarrow> int option" where
  "parseExponent s =
     (let (neg, ds) = splitSign s
      in if ds \<noteq> [] \<and> list_all (isDigit 10) ds
         then Some (if neg then - int (digitsVal 10 ds) else int (digitsVal 10 ds))
         else None)"

definition pow10 :: "int \<Rightarrow> rat" where
  "pow10 k = (if 0 \<le> k then 10 ^ nat k else 1 / 10 ^ nat (- k))"

definition parseUnsignedDecimal :: "string \<Rightarrow> rat option" where
  "parseUnsignedDecimal s =
     (let ip = takeWhile (isDigit 10) s;
          r1 = dropWhile (isDigit 10) s;
          fp = (case r1 of [] \<Rightarrow> []
                | c # r \<Rightarrow> if c = CHR ''.'' then takeWhile (isDigit 10) r else []);
          r2 = (case r1 of [] \<Rightarrow> []
                | c # r \<Rightarrow> if c = CHR ''.'' then dropWhile (isDigit 10) r else r1);
          mant = of_nat (digitsVal 10 ip) + of_nat (digitsVal 10 fp) / 10 ^ length fp
      in if ip = [] \<and> fp = [] then None
         else case r2 of [] \<Rightarrow> Some mant
              | c # r \<Rightarrow> if c = CHR ''e'' \<or> c = CHR ''E''
                         then map_option (\<lambda>k. mant * pow10 k) (parseExponent r)
                         else None)"

definition StringToNumber :: "string \<Rightarrow> jsnum" where
  "StringToNumber s =
     (let t = trimString s
      in if t = [] then Fin 0
         else case parseNonDecimal t of
                Some n \<Rightarrow> fl (of_nat n)
              | None \<Rightarrow>
                  (let (neg, u) = splitSign t
                   in if u = ''Infinity'' then (if neg then NInf else PInf)
                      else case parseUnsignedDecimal u of
                             None \<Rightarrow> NaN
                           | Some v \<Rightarrow> fl (if neg then - v else v)))"

section \<open>JavaScript values and dates\<close>

text \<open>
  The values a field of a fetched record can hold: what JSON carries, \<open>undefined\<close> for a
  missing field, and a \<open>Date\<close> object (the history fetcher replaces the raw time stamp by
  its normalised \<open>Date\<close>). A \<open>Date\<close> is its time value, the milliseconds since the epoch,
  or \<open>None\<close> for an Invalid Date (time value \<open>NaN\<close>).
\<close>

type_synonym jsdate = "int option"

datatype jsval = JUndefined | JNull | JBool bool | JNum jsnum | JStr string | JDate jsdate

datatype exn = RangeError | TypeError

text \<open>Truthiness: \<open>!v\<close> is \<open>\<not> truthy v\<close>.\<close>

fun truthy :: "jsval \<Rightarrow> bool" where
  "truthy JUndefined = False"
| "truthy JNull = False"
| "truthy (JBool b) = b"
| "truthy (JNum n) = (n \<noteq> NaN \<and> n \<noteq> Fin 0)"
| "truthy (JStr s) = (s \<noteq> [])"
| "truthy (JDate d) = True"

fun dateValue :: "jsdate \<Rightarrow> jsnum" where
  "dateValue None = NaN"
| "dateValue (Some t) = Fin (of_int t)"

text \<open>\<open>Number(v)\<close>; a \<open>Date\<close> converts to its time value.\<close>

fun Number :: "jsval \<Rightarrow> jsnum" where
  "Number JUndefined = NaN"
| "Number JNull = Fin 0"
| "Number (JBool b) = Fin (if b then 1 else 0)"
| "Number (JNum n) = n"
| "Number (JStr s) = StringToNumber s"
| "Number (JDate d) = dateValue d"

text \<open>
  \<open>a < b\<close> where at least one side is not a string: both sides are converted to numbers,
  and a comparison with \<open>NaN\<close> is false.
\<close>

fun num_less :: "jsnum \<Rightarrow> jsnum \<Rightarrow> bool" where
  "num_less NaN _ = False"
| "num_less _ NaN = False"
| "num_less PInf _ = False"
| "num_less _ NInf = False"
| "num_less NInf _ = True"
| "num_less _ PInf = True"
| "num_less (Fin a) (Fin b) = (a < b)"

definition js_lt :: "jsval \<Rightarrow> jsdate \<Rightarrow> bool" where
  "js_lt v d = num_less (Number v) (dateValue d)"

text \<open>
  \<open>new Date(n)\<close> for a number: TimeClip, that is Invalid Date outside of
  \<open>\<plusminus>8.64\<cdot>10\<^sup>1\<^sup>5\<close> ms and truncation towards zero inside.
\<close>

definition js_trunc :: "rat \<Rightarrow> int" where
  "js_trunc a = (if 0 \<le> a then \<lfloor>a\<rfloor> else \<lceil>a\<rceil>)"

definition TimeClip :: "jsnum \<Rightarrow> jsdate" where
  "TimeClip n =
     (case n of Fin a \<Rightarrow> if \<bar>a\<bar> \<le> 8640000000000000 then Some (js_trunc a) else None
      | _ \<Rightarrow> None)"

text \<open>
  The environment of a call: the clock read by \<open>new Date()\<close>, the system time zone, and
  the library functions the code calls but does not contain.
  \<^item> \<open>clock\<close>: the current time in milliseconds since the epoch.
  \<^item> \<open>LocalTZA\<close>: the offset of the system zone in milliseconds, local time minus UTC,
    as ECMAScript defines it: \<open>LocalTZA t True\<close> is the offset in force at the instant
    \<open>t\<close>, \<open>LocalTZA l False\<close> the offset by which the local time \<open>l\<close> is read (where a
    clock change repeats or skips local times, the offset before the change). A zone
    with daylight saving has an offset that depends on its argument.
  \<^item> \<open>parseISO\<close> (date-fns): total on strings, Invalid Date for what it cannot parse.
  \<^item> \<open>utcToZonedTime\<close> (date-fns-tz), called with the user's zone: a date, or an
    exception (on an Invalid Date some releases throw a RangeError, others return an
    Invalid Date).
  \<^item> \<open>DateParse\<close>: \<open>new Date(s)\<close> on a string, implementation-defined outside of the
    ISO format.
  Time values are unbounded integers: the range limit of \<open>Date\<close> is applied where a
  \<open>Date\<close> is made from an input number, and is not re-applied after adding the small
  offsets of the date arithmetic below.
\<close>

record env =
  clock :: int
  LocalTZA :: "int \<Rightarrow> bool \<Rightarrow> int"
  parseISO :: "string \<Rightarrow> jsdate"
  utcToZonedTime :: "jsdate \<Rightarrow> exn + jsdate"
  DateParse :: "string \<Rightarrow> jsdate"

text \<open>\<open>new Date(v)\<close>.\<close>

fun new_Date :: "env \<Rightarrow> jsval \<Rightarrow> jsdate" where
  "new_Date E (JDate d) = d"
| "new_Date E (JStr s) = DateParse E s"
| "new_Date E v = TimeClip (Number v)"

text \<open>
  \<open>LocalTime\<close> and \<open>UTC\<close> of ECMAScript: from a time value to the local time and back.
\<close>

definition LocalTime :: "env \<Rightarrow> int \<Rightarrow> int" where
  "LocalTime E t = t + LocalTZA E t True"

definition UTC :: "env \<Rightarrow> int \<Rightarrow> int" where
  "UTC E l = l - LocalTZA E l False"

text \<open>Local calendar fields and the date-fns helpers, on a valid time value.\<close>

definition getSeconds :: "env \<Rightarrow> int \<Rightarrow> int" where
  "getSeconds E t = LocalTime E t div 1000 mod 60"

definition getMinutes :: "env \<Rightarrow> int \<Rightarrow> int" where
  "getMinutes E t = LocalTime E t div 60000 mod 60"

definition getHours :: "env \<Rightarrow> int \<Rightarrow> int" where
  "getHours E t = LocalTime E t div 3600000 mod 24"

text \<open>
  \<open>date.setSeconds(sec, ms)\<close>: the local day, hour and minute are kept, seconds and
  milliseconds are set, and the local time made is converted back.
\<close>

definition setSeconds :: "env \<Rightarrow> int \<Rightarrow> int \<Rightarrow> int \<Rightarrow> int" where
  "setSeconds E t sec ms = UTC E (LocalTime E t - LocalTime E t mod 60000 + sec * 1000 + ms)"

text \<open>
  \<open>startOfMinute\<close> is \<open>date.setSeconds(0, 0)\<close>, \<open>startOfHour\<close> is \<open>date.setMinutes(0, 0, 0)\<close>
  and \<open>startOfDay\<close> is \<open>date.setHours(0, 0, 0, 0)\<close>.
\<close>

definition startOfMinute :: "env \<Rightarrow> int \<Rightarrow> int" where
  "startOfMinute E t = setSeconds E t 0 0"

definition startOfHour :: "env \<Rightarrow> int \<Rightarrow> int" where
  "startOfHour E t = UTC E (LocalTime E t - LocalTime E t mod 3600000)"

definition startOfDay :: "env \<Rightarrow> int \<Rightarrow> int" where
  "startOfDay E t = UTC E (LocalTime E t - LocalTime E t mod 86400000)"

definition addSeconds :: "int \<Rightarrow> int \<Rightarrow> int" where
  "addSeconds t n = t + n * 1000"

definition addMinutes :: "int \<Rightarrow> int \<Rightarrow> int" where
  "addMinutes t n = t + n * 60000"

definition subMinutes :: "int \<Rightarrow> int \<Rightarrow> int" where
  "subMinutes t n = addMinutes t (- n)"

definition subHours :: "int \<Rightarrow> int \<Rightarrow> int" where
  "subHours t n = t - n * 3600000"

text \<open>
  \<open>subDays(date, n)\<close> is \<open>addDays(date, -n)\<close>, which returns the date unchanged for
  \<open>n = 0\<close> and otherwise calls \<open>date.setDate(date.getDate() - n)\<close>: the local calendar day
  moves by \<open>n\<close> days, the local time of day is kept, and the local time made is converted
  back. Between two instants with different offsets this is not \<open>n\<close> times 24 hours.
\<close>

definition subDays :: "env \<Rightarrow> int \<Rightarrow> int \<Rightarrow> int" where
  "subDays E t n = (if n = 0 then t else UTC E (LocalTime E t - n * 86400000))"

text \<open>
  \<open>addHours(date, amount)\<close> with a number computed by the caller: the amount is truncated
  to an integer; \<open>NaN\<close> or an infinity gives an Invalid Date.
\<close>

definition addHours :: "int \<Rightarrow> jsnum \<Rightarrow> jsdate" where
  "addHours t amount =
     (case amount of Fin a \<Rightarrow> Some (t + js_trunc a * 3600000) | _ \<Rightarrow> None)"

section \<open>normalizeTimestamp (apiService)\<close>

text \<open>
  The \<open>try\<close> block: the date is parsed according to the type of the raw value and handed
  to \<open>utcToZonedTime\<close>; an exception leaves the block as \<open>Inl\<close>.
\<close>

definition normalizeTimestamp_try :: "env \<Rightarrow> jsval \<Rightarrow> exn + jsdate" where
  "normalizeTimestamp_try E timestamp =
     (let date = (case timestamp of
                    JStr s \<Rightarrow> if CHR ''T'' \<in> set s \<or> CHR ''Z'' \<in> set s then parseISO E s
                              else parseISO E (s @ ''Z'')
                  | JDate d \<Rightarrow> d
                  | _ \<Rightarrow> new_Date E timestamp)
      in utcToZonedTime E date)"

text \<open>The function: \<open>null\<close> for a falsy value, else the zoned date, else (\<open>catch\<close>) \<open>new Date(timestamp)\<close>.\<close>

definition normalizeTimestamp :: "env \<Rightarrow> jsval \<Rightarrow> jsval" where
  "normalizeTimestamp E timestamp =
     (if \<not> truthy timestamp then JNull
      else case normalizeTimestamp_try E timestamp of
             Inr zonedDate \<Rightarrow> JDate zonedDate
           | Inl error \<Rightarrow> JDate (new_Date E timestamp))"

section \<open>Bucket keys, target size and cutoff (dataAggregation)\<close>

text \<open>
  \<open>standardizeTimestamp\<close>: the seconds are floored to the interval of the time range and
  the milliseconds cleared. \<open>Math.floor(seconds / intervalSeconds)\<close> on two small
  non-negative integers is integer division. An Invalid Date stays invalid (its seconds
  are \<open>NaN\<close>).
\<close>

definition intervalSeconds :: "string \<Rightarrow> int" where
  "intervalSeconds timeRange =
     (if timeRange = ''1h'' \<or> timeRange = ''6h'' then 5
      else if timeRange = ''12h'' \<or> timeRange = ''1d'' then 30
      else if timeRange = ''3d'' \<or> timeRange = ''1w'' then 60
      else 5)"

definition standardizeTimestamp :: "env \<Rightarrow> jsval \<Rightarrow> string \<Rightarrow> jsdate" where
  "standardizeTimestamp E timestamp timeRange =
     (case new_Date E timestamp of
        None \<Rightarrow> None
      | Some t \<Rightarrow>
          (let seconds = getSeconds E t;
               standardizedSeconds = seconds div intervalSeconds timeRange * intervalSeconds timeRange
           in Some (setSeconds E t standardizedSeconds 0)))"

text \<open>
  The bucket functions. For the minute ranges \<open>Math.floor(minutes / w) * w\<close> is integer
  arithmetic; for \<open>3d\<close> and \<open>1w\<close> the code divides and multiplies the hour by the doubles
  \<open>1.2\<close> and \<open>2.8\<close> and floors twice, which is kept as floating-point arithmetic.
\<close>

definition minuteBucket :: "env \<Rightarrow> int \<Rightarrow> int \<Rightarrow> int" where
  "minuteBucket E w t =
     (let start = startOfHour E t; minutes = getMinutes E t div w * w
      in addMinutes start minutes)"

definition hourBucket :: "env \<Rightarrow> jsnum \<Rightarrow> int \<Rightarrow> jsdate" where
  "hourBucket E c t =
     (let hours = js_mul (Math_floor (js_div (Fin (of_int (getHours E t))) c)) c
      in addHours (startOfDay E t) (Math_floor hours))"

definition getTimeBucketFunction :: "env \<Rightarrow> string \<Rightarrow> jsdate \<Rightarrow> jsdate" where
  "getTimeBucketFunction E timeRange date =
     (case date of
        None \<Rightarrow> None
      | Some t \<Rightarrow>
          if timeRange = ''1h'' then Some (startOfMinute E t)
          else if timeRange = ''6h'' then Some (minuteBucket E 6 t)
          else if timeRange = ''12h'' then Some (minuteBucket E 12 t)
          else if timeRange = ''1d'' then Some (minuteBucket E 24 t)
          else if timeRange = ''3d'' then hourBucket E (fl (6 / 5)) t
          else if timeRange = ''1w'' then hourBucket E (fl (14 / 5)) t
          else Some (startOfMinute E t))"

definition getTargetDataPoints :: "string \<Rightarrow> nat" where
  "getTargetDataPoints timeRange =
     (if timeRange = ''1h'' then 60 else if timeRange = ''6h'' then 60
      else if timeRange = ''12h'' then 60 else if timeRange = ''1d'' then 60
      else if timeRange = ''3d'' then 60 else if timeRange = ''1w'' then 60 else 60)"

definition getTimeRangeCutoff :: "env \<Rightarrow> string \<Rightarrow> int" where
  "getTimeRangeCutoff E timeRange =
     (let now = clock E
      in if timeRange = ''1h'' then subHours now 1
         else if timeRange = ''6h'' then subHours now 6
         else if timeRange = ''12h'' then subHours now 12
         else if timeRange = ''1d'' then subHours now 24
         else if timeRange = ''3d'' then subDays E now 3
         else if timeRange = ''1w'' then subDays E now 7
         else subHours now 1)"

section \<open>Samples and the insertion-ordered Map\<close>

text \<open>
  A fetched record with the three fields the aggregation reads. A field that is absent
  from the record is \<open>JUndefined\<close>.
\<close>

record sample =
  timestamp :: jsval
  rx_rate :: jsval
  tx_rate :: jsval

text \<open>
  The guard at the head of every \<open>forEach\<close> body:
  \<open>!point.timestamp || (!point.rx_rate && point.rx_rate !== 0) || (!point.tx_rate && point.tx_rate !== 0)\<close>.
\<close>

definition missing :: "jsval \<Rightarrow> bool" where
  "missing v = (\<not> truthy v \<and> v \<noteq> JNum (Fin 0))"

definition skipped :: "sample \<Rightarrow> bool" where
  "skipped point = (\<not> truthy (timestamp point) \<or> missing (rx_rate point) \<or> missing (tx_rate point))"

text \<open>
  A JavaScript \<open>Map\<close> is an association list in insertion order: \<open>set\<close> on a present key
  replaces the value in place, on a new key it appends. The key of a bucket is
  \<open>bucketTime.getTime()\<close>, a number or \<open>NaN\<close>; keys are compared by SameValueZero, under
  which \<open>NaN\<close> equals itself, so the key type is \<open>jsdate\<close> with \<open>None\<close> for \<open>NaN\<close>.
  Mutating a bucket object that the Map holds is \<open>map_entry\<close>.
\<close>

definition map_has :: "('k \<times> 'v) list \<Rightarrow> 'k \<Rightarrow> bool" where
  "map_has m k = (map_of m k \<noteq> None)"

definition map_set :: "('k \<times> 'v) list \<Rightarrow> 'k \<Rightarrow> 'v \<Rightarrow> ('k \<times> 'v) list" where
  "map_set m k v = AList.update k v m"

definition map_values :: "('k \<times> 'v) list \<Rightarrow> 'v list" where
  "map_values m = map snd m"

text \<open>An exception aborts \<open>Array.prototype.map\<close> at the first element that throws.\<close>

fun mapE :: "('a \<Rightarrow> exn + 'b) \<Rightarrow> 'a list \<Rightarrow> exn + 'b list" where
  "mapE f [] = Inr []"
| "mapE f (x # xs) =
     (case f x of Inl e \<Rightarrow> Inl e
      | Inr y \<Rightarrow> (case mapE f xs of Inl e \<Rightarrow> Inl e | Inr ys \<Rightarrow> Inr (y # ys)))"

text \<open>\<open>xs.slice(-n)\<close>: the last \<open>n\<close> elements.\<close>

definition slice_last :: "nat \<Rightarrow> 'a list \<Rightarrow> 'a list" where
  "slice_last n xs = drop (length xs - n) xs"

section \<open>aggregateDataByTime\<close>

record bucket =
  b_timestamp :: jsdate
  rx_values :: "jsnum list"
  tx_values :: "jsnum list"
  b_count :: nat

text \<open>
  An output point. \<open>format(bucket.timestamp, \<dots>)\<close> of date-fns throws a RangeError on an
  Invalid Date, so a point that is returned carries a valid time value; the formatted
  string itself is not modelled.
\<close>

record point =
  p_timestamp :: int
  p_rx_rate :: jsnum
  p_tx_rate :: jsnum
  data_points :: nat

definition pushValues :: "sample \<Rightarrow> bucket \<Rightarrow> bucket" where
  "pushValues point bucket =
     bucket\<lparr>rx_values := rx_values bucket @ [or0 (Number (rx_rate point))],
            tx_values := tx_values bucket @ [or0 (Number (tx_rate point))],
            b_count := b_count bucket + 1\<rparr>"

text \<open>The body of \<open>rawData.forEach\<close>.\<close>

definition addPoint ::
  "env \<Rightarrow> string \<Rightarrow> (jsdate \<Rightarrow> jsdate) \<Rightarrow> int \<Rightarrow> (jsdate \<times> bucket) list \<Rightarrow> sample
     \<Rightarrow> (jsdate \<times> bucket) list" where
  "addPoint E timeRange bucketFunction cutoffTime buckets point =
     (if skipped point then buckets
      else let normalizedTime = normalizeTimestamp E (timestamp point)
           in if js_lt normalizedTime (Some cutoffTime) then buckets
              else let standardizedTime = standardizeTimestamp E normalizedTime timeRange;
                       bucketTime = bucketFunction standardizedTime;
                       bucketKey = bucketTime;
                       buckets1 =
                         (if \<not> map_has buckets bucketKey
                          then map_set buckets bucketKey
                                 \<lparr>b_timestamp = bucketTime, rx_values = [], tx_values = [],
                                  b_count = 0\<rparr>
                          else buckets)
                   in AList.map_entry bucketKey (pushValues point) buckets1)"

definition mean_or_0 :: "jsnum list \<Rightarrow> jsnum" where
  "mean_or_0 vs = (if length vs > 0 then js_mean vs else Fin 0)"

definition bucketPoint :: "bucket \<Rightarrow> exn + point" where
  "bucketPoint bucket =
     (case b_timestamp bucket of
        None \<Rightarrow> Inl RangeError
      | Some t \<Rightarrow>
          Inr \<lparr>p_timestamp = t,
               p_rx_rate = mean_or_0 (rx_values bucket),
               p_tx_rate = mean_or_0 (tx_values bucket),
               data_points = b_count bucket\<rparr>)"

definition aggregateDataByTime :: "env \<Rightarrow> sample list \<Rightarrow> string \<Rightarrow> exn + point list" where
  "aggregateDataByTime E rawData timeRange =
     (if rawData = [] then Inr []
      else let bucketFunction = getTimeBucketFunction E timeRange;
               cutoffTime = getTimeRangeCutoff E timeRange;
               buckets = foldl (addPoint E timeRange bucketFunction cutoffTime) [] rawData
           in case mapE bucketPoint (map_values buckets) of
                Inl e \<Rightarrow> Inl e
              | Inr points \<Rightarrow>
                  (let aggregatedData = sort_key p_timestamp points;
                       targetPoints = getTargetDataPoints timeRange
                   in if length aggregatedData > targetPoints
                      then Inr (slice_last targetPoints aggregatedData)
                      else Inr aggregatedData))"

section \<open>aggregateCombinedServerData\<close>

record server_bucket =
  s_rx_values :: "jsnum list"
  s_tx_values :: "jsnum list"

text \<open>
  A combined bucket: its time stamp and a Map from server index to that server's values.
  The fields \<open>total_rx\<close>, \<open>total_tx\<close> and \<open>server_count\<close> that the code initialises to \<open>0\<close> on
  the bucket are never read and are left out.
\<close>

record combined_bucket =
  c_timestamp :: jsdate
  servers :: "(nat \<times> server_bucket) list"

record combined_point =
  cp_timestamp :: int
  total_rx :: jsnum
  total_tx :: jsnum
  server_count :: nat

definition pushServerValues :: "sample \<Rightarrow> server_bucket \<Rightarrow> server_bucket" where
  "pushServerValues point serverBucket =
     serverBucket\<lparr>s_rx_values := s_rx_values serverBucket @ [or0 (Number (rx_rate point))],
                  s_tx_values := s_tx_values serverBucket @ [or0 (Number (tx_rate point))]\<rparr>"

definition addServerValues :: "nat \<Rightarrow> sample \<Rightarrow> combined_bucket \<Rightarrow> combined_bucket" where
  "addServerValues serverIndex point bucket =
     (let servers1 =
            (if \<not> map_has (servers bucket) serverIndex
             then map_set (servers bucket) serverIndex \<lparr>s_rx_values = [], s_tx_values = []\<rparr>
             else servers bucket)
      in bucket\<lparr>servers := AList.map_entry serverIndex (pushServerValues point) servers1\<rparr>)"

text \<open>The body of the inner \<open>serverData.forEach\<close>.\<close>

definition addServerPoint ::
  "env \<Rightarrow> string \<Rightarrow> (jsdate \<Rightarrow> jsdate) \<Rightarrow> int \<Rightarrow> nat \<Rightarrow> (jsdate \<times> combined_bucket) list
     \<Rightarrow> sample \<Rightarrow> (jsdate \<times> combined_bucket) list" where
  "addServerPoint E timeRange bucketFunction cutoffTime serverIndex buckets point =
     (if skipped point then buckets
      else let normalizedTime = normalizeTimestamp E (timestamp point)
           in if js_lt normalizedTime (Some cutoffTime) then buckets
              else let standardizedTime = standardizeTimestamp E normalizedTime timeRange;
                       bucketTime = bucketFunction standardizedTime;
                       bucketKey = bucketTime;
                       buckets1 =
                         (if \<not> map_has buckets bucketKey
                          then map_set buckets bucketKey \<lparr>c_timestamp = bucketTime, servers = []\<rparr>
                          else buckets)
                   in AList.map_entry bucketKey (addServerValues serverIndex point) buckets1)"

text \<open>The body of the outer \<open>allServerData.forEach((serverData, serverIndex) => \<dots>)\<close>.\<close>

definition addServer ::
  "env \<Rightarrow> string \<Rightarrow> (jsdate \<Rightarrow> jsdate) \<Rightarrow> int \<Rightarrow> (jsdate \<times> combined_bucket) list
     \<Rightarrow> nat \<times> sample list \<Rightarrow> (jsdate \<times> combined_bucket) list" where
  "addServer E timeRange bucketFunction cutoffTime buckets indexed =
     (let serverIndex = fst indexed; serverData = snd indexed
      in if serverData = [] then buckets
         else foldl (addServerPoint E timeRange bucketFunction cutoffTime serverIndex) buckets
                serverData)"

text \<open>\<open>bucket.servers.forEach\<close>: the running totals \<open>(totalRx, totalTx, serverCount)\<close>.\<close>

definition addServerMean :: "jsnum \<times> jsnum \<times> nat \<Rightarrow> server_bucket \<Rightarrow> jsnum \<times> jsnum \<times> nat" where
  "addServerMean totals serverData =
     (case totals of (totalRx, totalTx, serverCount) \<Rightarrow>
        if length (s_rx_values serverData) > 0 \<and> length (s_tx_values serverData) > 0
        then (let avgRx = js_mean (s_rx_values serverData);
                  avgTx = js_mean (s_tx_values serverData)
              in (js_add totalRx avgRx, js_add totalTx avgTx, serverCount + 1))
        else totals)"

definition combinedPoint :: "combined_bucket \<Rightarrow> exn + combined_point" where
  "combinedPoint bucket =
     (case foldl addServerMean (Fin 0, Fin 0, 0) (map_values (servers bucket)) of
        (totalRx, totalTx, serverCount) \<Rightarrow>
          (case c_timestamp bucket of
             None \<Rightarrow> Inl RangeError
           | Some t \<Rightarrow>
               Inr \<lparr>cp_timestamp = t, total_rx = totalRx, total_tx = totalTx,
                    server_count = serverCount\<rparr>))"

definition aggregateCombinedServerData ::
  "env \<Rightarrow> sample list list \<Rightarrow> string \<Rightarrow> exn + combined_point list" where
  "aggregateCombinedServerData E allServerData timeRange =
     (if allServerData = [] then Inr []
      else let bucketFunction = getTimeBucketFunction E timeRange;
               cutoffTime = getTimeRangeCutoff E timeRange;
               buckets = foldl (addServer E timeRange bucketFunction cutoffTime) []
                           (zip [0 ..< length allServerData] allServerData)
           in case mapE combinedPoint (map_values buckets) of
                Inl e \<Rightarrow> Inl e
              | Inr points \<Rightarrow>
                  (let combinedData =
                         sort_key cp_timestamp (filter (\<lambda>point. server_count point > 0) points);
                       targetPoints = getTargetDataPoints timeRange
                   in if length combinedData > targetPoints
                      then Inr (slice_last targetPoints combinedData)
                      else Inr combinedData))"

section \<open>aggregateRealtimeData (RealtimeChart)\<close>

record realtime_point =
  r_timestamp :: jsdate
  total_throughput :: jsnum
  r_data_points :: nat

text \<open>\<open>toDate\<close> of date-fns: a \<open>Date\<close> is cloned, a number becomes a \<open>Date\<close>, anything else is an Invalid Date.\<close>

fun toDate :: "jsval \<Rightarrow> jsdate" where
  "toDate (JDate d) = d"
| "toDate (JNum n) = TimeClip n"
| "toDate v = None"

text \<open>
  \<open>Math.floor(t / 30000) * 30000\<close> on a time value: the quotient of two integers below
  \<open>2\<^sup>5\<^sup>3\<close> is floored correctly, so this is integer arithmetic; \<open>NaN\<close> stays \<open>NaN\<close>.
\<close>

definition key30 :: "jsdate \<Rightarrow> jsdate" where
  "key30 d = map_option (\<lambda>t. t div 30000 * 30000) d"

text \<open>The loop \<open>for (let i = 0; i < 30; i++)\<close> that creates the buckets.\<close>

definition createBucket :: "jsdate \<Rightarrow> (jsdate \<times> bucket) list \<Rightarrow> int \<Rightarrow> (jsdate \<times> bucket) list" where
  "createBucket startTime buckets i =
     (let bucketTime = map_option (\<lambda>t. addSeconds t (i * 30)) startTime;
          bucketKey = key30 bucketTime
      in map_set buckets bucketKey
           \<lparr>b_timestamp = bucketKey, rx_values = [], tx_values = [], b_count = 0\<rparr>)"

text \<open>
  The body of \<open>rawData.forEach\<close>. \<open>pointTime\<close> is a \<open>Date\<close> here, because the guard has
  passed a truthy time stamp (on \<open>null\<close> the call \<open>pointTime.getTime()\<close> would not be
  reached either: \<open>normalizeTimestamp\<close> returns \<open>null\<close> only for a falsy value).
\<close>

definition addRealtimePoint ::
  "env \<Rightarrow> jsdate \<Rightarrow> (jsdate \<times> bucket) list \<Rightarrow> sample \<Rightarrow> (jsdate \<times> bucket) list" where
  "addRealtimePoint E startTime buckets point =
     (if skipped point then buckets
      else let pointTime = normalizeTimestamp E (timestamp point)
           in if js_lt pointTime startTime then buckets
              else case pointTime of
                     JDate d \<Rightarrow>
                       (let bucketKey = key30 d
                        in case map_of buckets bucketKey of
                             None \<Rightarrow> buckets
                           | Some bucket \<Rightarrow> AList.map_entry bucketKey (pushValues point) buckets)
                   | _ \<Rightarrow> buckets)"

definition realtimePoint :: "bucket \<Rightarrow> realtime_point" where
  "realtimePoint bucket =
     (let avgRx = mean_or_0 (rx_values bucket); avgTx = mean_or_0 (tx_values bucket)
      in \<lparr>r_timestamp = b_timestamp bucket, total_throughput = js_add avgRx avgTx,
          r_data_points = b_count bucket\<rparr>)"

text \<open>
  The sort compares time values. With a valid clock all keys are valid and distinct; were
  the normalised clock an Invalid Date, all thirty keys would be \<open>NaN\<close>, the Map would
  hold one bucket and the order would not matter.
\<close>

definition aggregateRealtimeData :: "env \<Rightarrow> sample list \<Rightarrow> realtime_point list" where
  "aggregateRealtimeData E rawData =
     (if rawData = [] then []
      else let now = normalizeTimestamp E (JDate (Some (clock E)));
               startTime = map_option (\<lambda>t. subMinutes t 15) (toDate now);
               buckets0 = foldl (createBucket startTime) [] (map int [0 ..< 30]);
               buckets = foldl (addRealtimePoint E startTime) buckets0 rawData
           in sort_key r_timestamp (map realtimePoint (map_values buckets)))"

section \<open>What the aggregation keeps, in terms of the input\<close>

text \<open>
  The notions below describe the input of an aggregation call without the Map: which
  samples pass the guard and the cutoff, which bucket key a sample gets, and which values
  of which server fall into a bucket. The aggregation functions above are compared with
  them.
\<close>

definition beforeCutoff :: "env \<Rightarrow> string \<Rightarrow> sample \<Rightarrow> bool" where
  "beforeCutoff E timeRange point =
     js_lt (normalizeTimestamp E (timestamp point)) (Some (getTimeRangeCutoff E timeRange))"

definition kept :: "env \<Rightarrow> string \<Rightarrow> sample \<Rightarrow> bool" where
  "kept E timeRange point = (\<not> skipped point \<and> \<not> beforeCutoff E timeRange point)"

definition bucketKeyOf :: "env \<Rightarrow> string \<Rightarrow> sample \<Rightarrow> jsdate" where
  "bucketKeyOf E timeRange point =
     getTimeBucketFunction E timeRange
       (standardizeTimestamp E (normalizeTimestamp E (timestamp point)) timeRange)"

definition rxValue :: "sample \<Rightarrow> jsnum" where
  "rxValue point = or0 (Number (rx_rate point))"

definition txValue :: "sample \<Rightarrow> jsnum" where
  "txValue point = or0 (Number (tx_rate point))"

text \<open>The samples of one array that are kept and fall into the bucket with key \<open>k\<close>.\<close>

definition inBucket :: "env \<Rightarrow> string \<Rightarrow> jsdate \<Rightarrow> sample list \<Rightarrow> sample list" where
  "inBucket E timeRange k samples =
     filter (\<lambda>point. kept E timeRange point \<and> bucketKeyOf E timeRange point = k) samples"

text \<open>The servers, by index, that have at least one kept sample in the bucket with key \<open>k\<close>.\<close>

definition contributing :: "env \<Rightarrow> string \<Rightarrow> jsdate \<Rightarrow> sample list list \<Rightarrow> nat list" where
  "contributing E timeRange k allServerData =
     filter (\<lambda>i. inBucket E timeRange k (allServerData ! i) \<noteq> [])
       [0 ..< length allServerData]"

text \<open>
  The sum law of the combiner in the words of the specification: the sum, over the
  contributing servers, of each server's own mean of its values in the bucket.
\<close>

definition sumOfServerMeans ::
  "(sample \<Rightarrow> jsnum) \<Rightarrow> env \<Rightarrow> string \<Rightarrow> jsdate \<Rightarrow> sample list list \<Rightarrow> jsnum" where
  "sumOfServerMeans rate E timeRange k allServerData =
     js_sum (map (\<lambda>i. js_mean (map rate (inBucket E timeRange k (allServerData ! i))))
               (contributing E timeRange k allServerData))"

text \<open>
  The insert-or-update step that every loop body performs on a Map: create the entry
  with \<open>init\<close> when the key is new, then change the entry by \<open>f\<close>.
\<close>

definition upsert :: "'k \<Rightarrow> 'v \<Rightarrow> ('v \<Rightarrow> 'v) \<Rightarrow> ('k \<times> 'v) list \<Rightarrow> ('k \<times> 'v) list" where
  "upsert k init f m = AList.map_entry k f (if \<not> map_has m k then map_set m k init else m)"

definition emptyBucket :: "jsdate \<Rightarrow> bucket" where
  "emptyBucket k = \<lparr>b_timestamp = k, rx_values = [], tx_values = [], b_count = 0\<rparr>"

text \<open>The thirty keys of the real-time chart, and the samples assigned to one of them.\<close>

definition realtimeStart :: "env \<Rightarrow> jsdate" where
  "realtimeStart E =
     map_option (\<lambda>t. subMinutes t 15) (toDate (normalizeTimestamp E (JDate (Some (clock E)))))"

definition realtimeKeys :: "env \<Rightarrow> jsdate list" where
  "realtimeKeys E =
     map (\<lambda>i. key30 (map_option (\<lambda>t. addSeconds t (i * 30)) (realtimeStart E)))
       (map int [0 ..< 30])"

definition realtimeKeyOf :: "env \<Rightarrow> sample \<Rightarrow> jsdate" where
  "realtimeKeyOf E point = key30 (toDate (normalizeTimestamp E (timestamp point)))"

definition realtimeKept :: "env \<Rightarrow> sample \<Rightarrow> bool" where
  "realtimeKept E point =
     (\<not> skipped point \<and> \<not> js_lt (normalizeTimestamp E (timestamp point)) (realtimeStart E))"

section \<open>The aggregation described by its input\<close>

text \<open>
  \<open>groupBy\<close> is the loop pattern of all three functions: a fold that inserts or updates
  the entry of each element's key.
\<close>

definition groupBy ::
  "('a \<Rightarrow> 'k) \<Rightarrow> ('k \<Rightarrow> 'v) \<Rightarrow> ('a \<Rightarrow> 'v \<Rightarrow> 'v) \<Rightarrow> 'a list \<Rightarrow> ('k \<times> 'v) list" where
  "groupBy key init push xs = foldl (\<lambda>m x. upsert (key x) (init (key x)) (push x) m) [] xs"

text \<open>The bucket keys of the kept samples, and the valid time values among a list of keys.\<close>

definition keptKeys :: "env \<Rightarrow> string \<Rightarrow> sample list \<Rightarrow> jsdate list" where
  "keptKeys E timeRange samples = map (bucketKeyOf E timeRange) (filter (kept E timeRange) samples)"

definition somes :: "'a option list \<Rightarrow> 'a list" where
  "somes xs = concat (map (\<lambda>x. case x of None \<Rightarrow> [] | Some y \<Rightarrow> [y]) xs)"

definition bucketTimes :: "jsdate list \<Rightarrow> int list" where
  "bucketTimes keys = sort (remdups (somes keys))"

text \<open>
  The single-series result in the words of the specification: one point per bucket that
  holds a kept sample, with the means of the samples of that bucket, in ascending order of
  time, cut to the most recent \<open>target\<close> points. A kept sample whose bucket key is an
  Invalid Date makes \<open>format\<close> throw.
\<close>

definition bucketAt :: "env \<Rightarrow> string \<Rightarrow> sample list \<Rightarrow> jsdate \<Rightarrow> bucket" where
  "bucketAt E timeRange samples k =
     \<lparr>b_timestamp = k,
      rx_values = map rxValue (inBucket E timeRange k samples),
      tx_values = map txValue (inBucket E timeRange k samples),
      b_count = length (inBucket E timeRange k samples)\<rparr>"

definition pointAt :: "env \<Rightarrow> string \<Rightarrow> sample list \<Rightarrow> int \<Rightarrow> point" where
  "pointAt E timeRange samples t =
     \<lparr>p_timestamp = t,
      p_rx_rate = mean_or_0 (map rxValue (inBucket E timeRange (Some t) samples)),
      p_tx_rate = mean_or_0 (map txValue (inBucket E timeRange (Some t) samples)),
      data_points = length (inBucket E timeRange (Some t) samples)\<rparr>"

definition allPoints :: "env \<Rightarrow> string \<Rightarrow> sample list \<Rightarrow> point list" where
  "allPoints E timeRange rawData =
     map (pointAt E timeRange rawData) (bucketTimes (keptKeys E timeRange rawData))"

definition aggregateSpec :: "env \<Rightarrow> sample list \<Rightarrow> string \<Rightarrow> exn + point list" where
  "aggregateSpec E rawData timeRange =
     (if None \<in> set (keptKeys E timeRange rawData) then Inl RangeError
      else Inr (slice_last (getTargetDataPoints timeRange) (allPoints E timeRange rawData)))"

text \<open>The combined result in the same style, with the sum law for the totals.\<close>

definition combinedAt :: "env \<Rightarrow> string \<Rightarrow> sample list list \<Rightarrow> int \<Rightarrow> combined_point" where
  "combinedAt E timeRange allServerData t =
     \<lparr>cp_timestamp = t,
      total_rx = sumOfServerMeans rxValue E timeRange (Some t) allServerData,
      total_tx = sumOfServerMeans txValue E timeRange (Some t) allServerData,
      server_count = length (contributing E timeRange (Some t) allServerData)\<rparr>"

definition allCombinedPoints :: "env \<Rightarrow> string \<Rightarrow> sample list list \<Rightarrow> combined_point list" where
  "allCombinedPoints E timeRange allServerData =
     map (combinedAt E timeRange allServerData)
       (bucketTimes (keptKeys E timeRange (concat allServerData)))"

definition combinedSpec :: "env \<Rightarrow> sample list list \<Rightarrow> string \<Rightarrow> exn + combined_point list" where
  "combinedSpec E allServerData timeRange =
     (if None \<in> set (keptKeys E timeRange (concat allServerData)) then Inl RangeError
      else Inr (slice_last (getTargetDataPoints timeRange)
                  (allCombinedPoints E timeRange allServerData)))"

text \<open>
  Auxiliary notions for the comparison: the samples of all servers as one list of
  (server index, sample) pairs in loop order, and the contents of a combined bucket and of
  one server's entry in it.
\<close>

definition indexed :: "'a list list \<Rightarrow> (nat \<times> 'a) list" where
  "indexed xss = concat (map (\<lambda>e. map (Pair (fst e)) (snd e)) (zip [0 ..< length xss] xss))"

definition emptyCombined :: "jsdate \<Rightarrow> combined_bucket" where
  "emptyCombined k = \<lparr>c_timestamp = k, servers = []\<rparr>"

definition serverBucketAt :: "env \<Rightarrow> string \<Rightarrow> sample list list \<Rightarrow> jsdate \<Rightarrow> nat \<Rightarrow> server_bucket" where
  "serverBucketAt E timeRange allServerData k i =
     \<lparr>s_rx_values = map rxValue (inBucket E timeRange k (allServerData ! i)),
      s_tx_values = map txValue (inBucket E timeRange k (allServerData ! i))\<rparr>"

definition combinedBucketAt :: "env \<Rightarrow> string \<Rightarrow> sample list list \<Rightarrow> jsdate \<Rightarrow> combined_bucket" where
  "combinedBucketAt E timeRange allServerData k =
     \<lparr>c_timestamp = k,
      servers = map (\<lambda>i. (i, serverBucketAt E timeRange allServerData k i))
                  (contributing E timeRange k allServerData)\<rparr>"

text \<open>
  Two results that differ only in the order in which the samples of a bucket were summed:
  the same bucket, the same count, the same samples as a multiset, each mean taken over
  the samples in the order of the respective input.
\<close>

definition sameBucketPoint ::
  "env \<Rightarrow> string \<Rightarrow> sample list \<Rightarrow> sample list \<Rightarrow> point \<Rightarrow> point \<Rightarrow> bool" where
  "sameBucketPoint E timeRange xs ys p q =
     (p_timestamp p = p_timestamp q \<and> data_points p = data_points q \<and>
      mset (inBucket E timeRange (Some (p_timestamp p)) xs) =
        mset (inBucket E timeRange (Some (p_timestamp p)) ys) \<and>
      p = pointAt E timeRange xs (p_timestamp p) \<and>
      q = pointAt E timeRange ys (p_timestamp p))"

definition sameCombinedPoint ::
  "env \<Rightarrow> string \<Rightarrow> sample list list \<Rightarrow> sample list list \<Rightarrow> combined_point \<Rightarrow> combined_point
     \<Rightarrow> bool" where
  "sameCombinedPoint E timeRange xss yss p q =
     (cp_timestamp p = cp_timestamp q \<and> server_count p = server_count q \<and>
      contributing E timeRange (Some (cp_timestamp p)) xss =
        contributing E timeRange (Some (cp_timestamp p)) yss \<and>
      list_all (\<lambda>i. mset (inBucket E timeRange (Some (cp_timestamp p)) (xss ! i)) =
                     mset (inBucket E timeRange (Some (cp_timestamp p)) (yss ! i)))
        (contributing E timeRange (Some (cp_timestamp p)) xss) \<and>
      p = combinedAt E timeRange xss (cp_timestamp p) \<and>
      q = combinedAt E timeRange yss (cp_timestamp p))"





text \<open>
  The real-time chart in terms of its input: the samples assigned to the bucket with key
  \<open>k\<close>, and the point made of them.
\<close>

definition realtimeAssigned :: "env \<Rightarrow> jsdate \<Rightarrow> sample list \<Rightarrow> sample list" where
  "realtimeAssigned E k rawData =
     filter (\<lambda>point. realtimeKept E point \<and> realtimeKeyOf E point = k) rawData"

definition realtimePointAt :: "env \<Rightarrow> sample list \<Rightarrow> jsdate \<Rightarrow> realtime_point" where
  "realtimePointAt E rawData k =
     (let assigned = realtimeAssigned E k rawData
      in \<lparr>r_timestamp = k,
          total_throughput =
            js_add (mean_or_0 (map rxValue assigned)) (mean_or_0 (map txValue assigned)),
          r_data_points = length assigned\<rparr>)"

section \<open>A concrete environment\<close>

text \<open>
  The environment of the worked examples: the clock stands at 1 700 000 000 000 ms
  (2023-11-14 22:13:20 UTC), the system zone is UTC, \<open>utcToZonedTime\<close> returns a valid date
  unchanged and throws on an Invalid Date, and no string parses as a date (the examples
  pass time stamps as epoch numbers, or as the string \<open>garbage\<close>, which is not a date).
\<close>

definition env0 :: env where
  "env0 = \<lparr>clock = 1700000000000, LocalTZA = (\<lambda>t u. 0), parseISO = (\<lambda>s. None),
           utcToZonedTime = (\<lambda>d. case d of None \<Rightarrow> Inl RangeError | Some t \<Rightarrow> Inr (Some t)),
           DateParse = (\<lambda>s. None)\<rparr>"

text \<open>
  A zone with a clock change: it leaves daylight-saving time on 2023-11-05 at 06:00 UTC
  (1 699 164 000 000 ms), as America/New_York does, and is at UTC-4 before and at UTC-5
  after. In local time the change is at 02:00 (1 699 149 600 000 ms as a local time value);
  the repeated local hour before it is read with the offset before the change. The clock
  stands at 2023-11-08 17:00 UTC, noon local time. The user's zone is the system zone, so
  \<open>utcToZonedTime\<close> returns a valid date unchanged, as in \<open>env0\<close>.
\<close>

definition env_dst :: env where
  "env_dst = \<lparr>clock = 1699462800000,
           LocalTZA = (\<lambda>t isUTC. if isUTC then (if t < 1699164000000 then - 14400000 else - 18000000)
                                  else (if t < 1699149600000 then - 14400000 else - 18000000)),
           parseISO = (\<lambda>s. None),
           utcToZonedTime = (\<lambda>d. case d of None \<Rightarrow> Inl RangeError | Some t \<Rightarrow> Inr (Some t)),
           DateParse = (\<lambda>s. None)\<rparr>"

definition mk_sample :: "jsval \<Rightarrow> jsval \<Rightarrow> jsval \<Rightarrow> sample" where
  "mk_sample t rx tx = \<lparr>timestamp = t, rx_rate = rx, tx_rate = tx\<rparr>"

text \<open>One sample per minute, going back from the clock: \<open>n\<close> samples in \<open>n\<close> minute buckets.\<close>

definition minuteSamples :: "nat \<Rightarrow> sample list" where
  "minuteSamples n =
     map (\<lambda>i. mk_sample (JNum (Fin (of_int (1700000000000 - 60000 * int i)))) (JNum (Fin 1)) (JNum (Fin 2)))
       [0 ..< n]"

section \<open>Evaluation lemmas\<close>

lemma floor_rat_numeral [simp]:
  "\<lfloor>numeral a / numeral b :: rat\<rfloor> = numeral a div numeral b"
  using floor_divide_of_int_eq [of "numeral a" "numeral b", where ?'a = rat] by simp

lemmas fl_eval = fl_def ilog2.simps round_at_def pow2_def roundTiesToEven_def Let_def

lemma env0_simps [simp]:
  "clock env0 = 1700000000000" "LocalTZA env0 t u = 0" "parseISO env0 s = None"
  "utcToZonedTime env0 None = Inl RangeError" "utcToZonedTime env0 (Some t) = Inr (Some t)"
  "DateParse env0 s = None"
  by (simp_all add: env0_def)

lemma env_dst_simps [simp]:
  "clock env_dst = 1699462800000"
  "LocalTZA env_dst t True = (if t < 1699164000000 then - 14400000 else - 18000000)"
  "LocalTZA env_dst l False = (if l < 1699149600000 then - 14400000 else - 18000000)"
  "parseISO env_dst s = None"
  "utcToZonedTime env_dst None = Inl RangeError" "utcToZonedTime env_dst (Some t) = Inr (Some t)"
  "DateParse env_dst s = None"
  by (simp_all add: env_dst_def)

section \<open>normalizeTimestamp\<close>

lemma normalizeTimestamp_falsy: "\<not> truthy ts \<Longrightarrow> normalizeTimestamp E ts = JNull"
  by (simp add: normalizeTimestamp_def)

lemma normalizeTimestamp_truthy:
  "truthy ts \<Longrightarrow> \<exists>d. normalizeTimestamp E ts = JDate d"
  by (simp add: normalizeTimestamp_def split: sum.split)

text \<open>
  C3 (as amended). \<open>normalizeTimestamp\<close> returns \<open>null\<close> exactly for a falsy raw value
  (\<open>undefined\<close>, \<open>null\<close>, \<open>false\<close>, \<open>0\<close>, \<open>NaN\<close>, the empty string). For every other value it
  returns a \<open>Date\<close> object and never \<open>null\<close>; for a non-empty string that neither
  \<open>parseISO\<close> nor \<open>new Date\<close> can parse this is an Invalid Date, whether \<open>utcToZonedTime\<close>
  throws on the unparsed date or passes it on. The function is total on the modelled
  values: the \<open>catch\<close> block handles every exception of the \<open>try\<close> block and
  \<open>new Date(timestamp)\<close> does not throw.
\<close>

theorem normalizeTimestamp_null_only_if_falsy:
  "(\<not> truthy ts \<longrightarrow> normalizeTimestamp E ts = JNull) \<and>
   (truthy ts \<longrightarrow> (\<exists>d. normalizeTimestamp E ts = JDate d)) \<and>
   (s \<noteq> [] \<and> parseISO E s = None \<and> parseISO E (s @ ''Z'') = None \<and> DateParse E s = None \<and>
    (\<forall>t. utcToZonedTime E None \<noteq> Inr (Some t))
      \<longrightarrow> normalizeTimestamp E (JStr s) = JDate None)"
proof (intro conjI impI)
  assume "\<not> truthy ts"
  then show "normalizeTimestamp E ts = JNull" by (rule normalizeTimestamp_falsy)
next
  assume "truthy ts"
  then show "\<exists>d. normalizeTimestamp E ts = JDate d" by (rule normalizeTimestamp_truthy)
next
  assume a: "s \<noteq> [] \<and> parseISO E s = None \<and> parseISO E (s @ ''Z'') = None \<and>
             DateParse E s = None \<and> (\<forall>t. utcToZonedTime E None \<noteq> Inr (Some t))"
  then have tr: "normalizeTimestamp_try E (JStr s) = utcToZonedTime E None"
    by (simp add: normalizeTimestamp_try_def)
  show "normalizeTimestamp E (JStr s) = JDate None"
  proof (cases "utcToZonedTime E None")
    case (Inl e)
    with a tr show ?thesis by (simp add: normalizeTimestamp_def)
  next
    case (Inr d)
    with a have "d = None" by (cases d) auto
    with a tr Inr show ?thesis by (simp add: normalizeTimestamp_def)
  qed
qed

theorem normalizeTimestamp_null_only_if_falsy_witness:
  "\<not> truthy (JStr []) \<and> normalizeTimestamp env0 (JStr []) = JNull \<and>
   truthy (JNum (Fin 1700000000000)) \<and>
   (\<exists>d. normalizeTimestamp env0 (JNum (Fin 1700000000000)) = JDate d) \<and>
   normalizeTimestamp env0 (JStr ''garbage'') = JDate None"
  using normalizeTimestamp_null_only_if_falsy [of "JStr []" env0 "''garbage''"]
        normalizeTimestamp_null_only_if_falsy [of "JNum (Fin 1700000000000)" env0 "''garbage''"]
  by simp

theorem normalizeTimestamp_unparseable_counterexample:
  "normalizeTimestamp env0 (JStr ''garbage'') \<noteq> JNull"
  by (simp add: normalizeTimestamp_def normalizeTimestamp_try_def)

section \<open>Insert-or-update and grouping folds\<close>

lemma update_fresh: "k \<notin> fst ` set m \<Longrightarrow> AList.update k v m = m @ [(k, v)]"
  by (induction m) auto

lemma map_entry_fresh: "k \<notin> fst ` set m \<Longrightarrow> AList.map_entry k f m = m"
  by (induction m) auto

lemma map_entry_append_last:
  "k \<notin> fst ` set m \<Longrightarrow> AList.map_entry k f (m @ [(k, v)]) = m @ [(k, f v)]"
  by (induction m) auto

lemma map_has_iff: "map_has m k \<longleftrightarrow> k \<in> fst ` set m"
  by (simp add: map_has_def map_of_eq_None_iff)

lemma upsert_alt:
  "upsert k i f m = (if k \<in> fst ` set m then AList.map_entry k f m else m @ [(k, f i)])"
  by (simp add: upsert_def map_has_iff map_set_def update_fresh map_entry_append_last)

lemma keys_map_entry: "map fst (AList.map_entry k f m) = map fst m"
  by (induction m) auto

lemma keys_upsert:
  "map fst (upsert k i f m) = (if k \<in> fst ` set m then map fst m else map fst m @ [k])"
  by (simp add: upsert_alt keys_map_entry)

lemma map_of_upsert:
  "map_of (upsert k i f m) k' =
     (if k' = k then Some (f (case map_of m k of None \<Rightarrow> i | Some v \<Rightarrow> v)) else map_of m k')"
proof (cases "k \<in> fst ` set m")
  case True
  then obtain v where "map_of m k = Some v"
    by (metis map_of_eq_None_iff not_Some_eq)
  with True show ?thesis
    by (simp add: upsert_alt map_of_map_entry)
next
  case False
  then have "map_of m k = None" by (simp add: map_of_eq_None_iff)
  with False show ?thesis
    by (auto simp: upsert_alt map_add_def split: option.split)
qed

lemma distinct_upsert:
  "distinct (map fst m) \<Longrightarrow> distinct (map fst (upsert k i f m))"
  by (simp add: keys_upsert)


lemma groupBy_Nil [simp]: "groupBy key init push [] = []"
  by (simp add: groupBy_def)

lemma groupBy_snoc:
  "groupBy key init push (xs @ [x]) =
     upsert (key x) (init (key x)) (push x) (groupBy key init push xs)"
  by (simp add: groupBy_def)

lemma keyset_upsert: "fst ` set (upsert k i f m) = insert k (fst ` set m)"
proof -
  have "set (map fst (upsert k i f m)) = insert k (set (map fst m))"
    by (auto simp: keys_upsert)
  then show ?thesis by simp
qed

lemma keys_groupBy: "fst ` set (groupBy key init push xs) = key ` set xs"
  by (induction xs rule: rev_induct) (simp_all add: groupBy_snoc keyset_upsert)

lemma distinct_groupBy: "distinct (map fst (groupBy key init push xs))"
  by (induction xs rule: rev_induct) (simp_all add: groupBy_snoc distinct_upsert)

lemma filter_key_absent: "k \<notin> key ` set xs \<Longrightarrow> filter (\<lambda>x. key x = k) xs = []"
  by (induction xs) auto

lemma map_of_groupBy:
  "map_of (groupBy key init push xs) k =
     (if k \<in> key ` set xs
      then Some (foldl (\<lambda>v x. push x v) (init k) (filter (\<lambda>x. key x = k) xs))
      else None)"
proof (induction xs rule: rev_induct)
  case Nil
  show ?case by simp
next
  case (snoc x xs)
  show ?case
  proof (cases "key x = k")
    case True
    show ?thesis
    proof (cases "k \<in> key ` set xs")
      case True
      with snoc \<open>key x = k\<close> show ?thesis
        by (simp add: groupBy_snoc map_of_upsert)
    next
      case False
      with snoc \<open>key x = k\<close> show ?thesis
        by (simp add: groupBy_snoc map_of_upsert filter_key_absent)
    qed
  next
    case False
    with snoc show ?thesis
      by (auto simp: groupBy_snoc map_of_upsert)
  qed
qed

lemma sorted_keys_groupBy:
  fixes key :: "'a \<Rightarrow> 'k::linorder"
  assumes "sorted (map key xs)"
  shows "sorted (map fst (groupBy key init push xs))"
  using assms
proof (induction xs rule: rev_induct)
  case Nil
  show ?case by simp
next
  case (snoc x xs)
  then have s: "sorted (map fst (groupBy key init push xs))" and
    le: "\<forall>y\<in>set xs. key y \<le> key x"
    by (auto simp: sorted_append)
  have "\<forall>k\<in>set (map fst (groupBy key init push xs)). k \<le> key x"
    using le keys_groupBy [of key init push xs] by auto
  with s show ?case
    by (simp add: groupBy_snoc keys_upsert sorted_append)
qed


section \<open>aggregateDataByTime computes its specification\<close>

lemma foldl_cond_filter:
  assumes "\<And>m x. f m x = (if P x then g m x else m)"
  shows "foldl f m xs = foldl g m (filter P xs)"
  by (induction xs arbitrary: m) (simp_all add: assms)

lemma addPoint_upsert:
  "addPoint E tr (getTimeBucketFunction E tr) (getTimeRangeCutoff E tr) bs p =
     (if kept E tr p
      then upsert (bucketKeyOf E tr p) (emptyBucket (bucketKeyOf E tr p)) (pushValues p) bs
      else bs)"
  by (simp add: addPoint_def kept_def beforeCutoff_def bucketKeyOf_def upsert_def
      emptyBucket_def Let_def)

lemma foldl_addPoint:
  "foldl (addPoint E tr (getTimeBucketFunction E tr) (getTimeRangeCutoff E tr)) [] raw =
     groupBy (bucketKeyOf E tr) emptyBucket pushValues (filter (kept E tr) raw)"
  unfolding groupBy_def
  by (rule foldl_cond_filter) (rule addPoint_upsert)

lemma foldl_pushValues:
  "foldl (\<lambda>b p. pushValues p b) (emptyBucket k) ps =
     \<lparr>b_timestamp = k, rx_values = map rxValue ps, tx_values = map txValue ps,
      b_count = length ps\<rparr>"
  by (induction ps rule: rev_induct)
     (simp_all add: emptyBucket_def pushValues_def rxValue_def txValue_def)

lemma filter_kept_key:
  "filter (\<lambda>p. bucketKeyOf E tr p = k) (filter (kept E tr) raw) = inBucket E tr k raw"
  by (simp add: inBucket_def conj_commute)

lemma assoc_by_keys:
  assumes "distinct (map fst m)" and "\<And>k. k \<in> fst ` set m \<Longrightarrow> map_of m k = Some (g k)"
  shows "map snd m = map g (map fst m)"
proof -
  have "snd e = g (fst e)" if "e \<in> set m" for e
  proof -
    from that have "map_of m (fst e) = Some (snd e)"
      using assms(1) by (metis map_of_is_SomeI prod.collapse)
    moreover have "map_of m (fst e) = Some (g (fst e))"
      using that assms(2) by force
    ultimately show ?thesis by simp
  qed
  then show ?thesis by simp
qed

lemma collect_values:
  "map snd (groupBy (bucketKeyOf E tr) emptyBucket pushValues (filter (kept E tr) raw)) =
     map (bucketAt E tr raw)
       (map fst (groupBy (bucketKeyOf E tr) emptyBucket pushValues (filter (kept E tr) raw)))"
proof (rule assoc_by_keys)
  show "distinct (map fst (groupBy (bucketKeyOf E tr) emptyBucket pushValues
          (filter (kept E tr) raw)))"
    by (rule distinct_groupBy)
next
  fix k
  assume "k \<in> fst ` set (groupBy (bucketKeyOf E tr) emptyBucket pushValues
            (filter (kept E tr) raw))"
  then have "k \<in> bucketKeyOf E tr ` set (filter (kept E tr) raw)"
    by (simp only: keys_groupBy)
  then show "map_of (groupBy (bucketKeyOf E tr) emptyBucket pushValues
               (filter (kept E tr) raw)) k = Some (bucketAt E tr raw k)"
    by (simp add: map_of_groupBy foldl_pushValues bucketAt_def inBucket_def)
qed

lemma mapE_bucketPoint:
  "mapE bucketPoint (map (bucketAt E tr raw) ks) =
     (if None \<in> set ks then Inl RangeError
      else Inr (map (pointAt E tr raw) (somes ks)))"
proof (induction ks)
  case Nil
  show ?case by (simp add: somes_def)
next
  case (Cons k ks)
  show ?case
  proof (cases k)
    case None
    then show ?thesis by (simp add: bucketPoint_def bucketAt_def)
  next
    case (Some t)
    with Cons show ?thesis
      by (simp add: bucketPoint_def bucketAt_def pointAt_def somes_def)
  qed
qed

lemma insort_key_map:
  "insort_key f (g x) (map g ys) = map g (insort_key (\<lambda>y. f (g y)) x ys)"
  by (induction ys) simp_all

lemma sort_key_map:
  "sort_key f (map g xs) = map g (sort_key (\<lambda>y. f (g y)) xs)"
  by (induction xs) (simp_all add: insort_key_map)

lemma sort_pointAt:
  "sort_key p_timestamp (map (pointAt E tr raw) ts) = map (pointAt E tr raw) (sort ts)"
  by (simp add: sort_key_map pointAt_def)

lemma set_somes: "set (somes ks) = {t. Some t \<in> set ks}"
  by (induction ks) (auto simp: somes_def split: option.splits)

lemma distinct_somes: "distinct ks \<Longrightarrow> distinct (somes ks)"
proof (induction ks)
  case Nil
  show ?case by (simp add: somes_def)
next
  case (Cons k ks)
  then have "distinct (somes ks)" by simp
  moreover have "somes (k # ks) = (case k of None \<Rightarrow> [] | Some t \<Rightarrow> [t]) @ somes ks"
    by (simp add: somes_def)
  ultimately show ?case using Cons.prems
    by (auto simp: set_somes split: option.splits)
qed

lemma sort_distinct_unique:
  fixes xs ys :: "'a::linorder list"
  assumes "distinct xs" "distinct ys" "set xs = set ys"
  shows "sort xs = sort ys"
  by (rule sorted_distinct_set_unique) (simp_all add: assms)

lemma bucketTimes_of_keys:
  assumes "distinct ks" "set ks = set keys"
  shows "sort (somes ks) = bucketTimes keys"
  unfolding bucketTimes_def
  by (rule sort_distinct_unique) (simp_all add: assms distinct_somes set_somes)

lemma slice_last_all: "length xs \<le> n \<Longrightarrow> slice_last n xs = xs"
  by (simp add: slice_last_def)

lemma aggregateDataByTime_spec:
  "aggregateDataByTime E raw tr = aggregateSpec E raw tr"
proof (cases "raw = []")
  case True
  then show ?thesis
    by (simp add: aggregateDataByTime_def aggregateSpec_def allPoints_def keptKeys_def
        bucketTimes_def somes_def slice_last_def)
next
  case False
  let ?G = "groupBy (bucketKeyOf E tr) emptyBucket pushValues (filter (kept E tr) raw)"
  let ?ks = "map fst ?G"
  let ?n = "getTargetDataPoints tr"
  have ks: "distinct ?ks" "set ?ks = set (keptKeys E tr raw)"
    using keys_groupBy [of "bucketKeyOf E tr" emptyBucket pushValues "filter (kept E tr) raw"]
    by (simp_all add: distinct_groupBy keptKeys_def)
  have vals: "map_values ?G = map (bucketAt E tr raw) ?ks"
    unfolding map_values_def by (rule collect_values)
  have times: "sort (somes ?ks) = bucketTimes (keptKeys E tr raw)"
    using ks by (rule bucketTimes_of_keys)
  have points: "mapE bucketPoint (map_values ?G) =
      (if None \<in> set (keptKeys E tr raw) then Inl RangeError
       else Inr (map (pointAt E tr raw) (somes ?ks)))"
    unfolding vals mapE_bucketPoint ks(2) ..
  have cut: "(if ?n < length xs then Inr (slice_last ?n xs) else Inr xs) =
      (Inr (slice_last ?n xs) :: exn + point list)" for xs
    by (simp add: slice_last_all)
  have "aggregateDataByTime E raw tr =
      (case mapE bucketPoint (map_values ?G) of
         Inl e \<Rightarrow> Inl e
       | Inr points \<Rightarrow> Inr (slice_last ?n (sort_key p_timestamp points)))"
    using False unfolding aggregateDataByTime_def Let_def foldl_addPoint cut by simp
  also have "\<dots> = aggregateSpec E raw tr"
    unfolding points aggregateSpec_def allPoints_def
    by (simp add: sort_pointAt times)
  finally show ?thesis .
qed

section \<open>aggregateCombinedServerData computes its specification\<close>

lemma indexed_Nil [simp]: "indexed [] = []"
  by (simp add: indexed_def)

lemma indexed_snoc: "indexed (xss @ [xs]) = indexed xss @ map (Pair (length xss)) xs"
  by (simp add: indexed_def)

lemma set_indexed: "set (indexed xss) = {(i, x). i < length xss \<and> x \<in> set (xss ! i)}"
proof (induction xss rule: rev_induct)
  case Nil
  show ?case by simp
next
  case (snoc xs xss)
  show ?case
    by (auto simp: indexed_snoc snoc nth_append less_Suc_eq)
qed

lemma snd_indexed: "map snd (indexed xss) = concat xss"
  by (induction xss rule: rev_induct) (simp_all add: indexed_snoc comp_def)

lemma sorted_fst_indexed: "sorted (map fst (indexed xss))"
proof (induction xss rule: rev_induct)
  case Nil
  show ?case by simp
next
  case (snoc xs xss)
  have "\<forall>e\<in>set (indexed xss). fst e \<le> length xss"
    by (auto simp: set_indexed)
  moreover have "sorted (map (\<lambda>x. length xss) xs)"
    by (simp add: map_replicate_const)
  ultimately show ?case using snoc
    by (auto simp: indexed_snoc sorted_append comp_def)
qed

lemma filter_indexed:
  "i < length xss \<Longrightarrow>
     map snd (filter (\<lambda>e. fst e = i \<and> Q (snd e)) (indexed xss)) = filter Q (xss ! i)"
proof (induction xss rule: rev_induct)
  case Nil
  then show ?case by simp
next
  case (snoc xs xss)
  show ?case
  proof (cases "i < length xss")
    case True
    then have "filter (\<lambda>e. fst e = i \<and> Q (snd e)) (map (Pair (length xss)) xs) = []"
      by (auto simp: filter_empty_conv)
    with True snoc.IH show ?thesis
      by (simp add: indexed_snoc nth_append)
  next
    case False
    with snoc.prems have i: "i = length xss" by simp
    have "filter (\<lambda>e. fst e = i \<and> Q (snd e)) (indexed xss) = []"
      using i by (auto simp: filter_empty_conv set_indexed)
    moreover have "map snd (filter (\<lambda>e. fst e = i \<and> Q (snd e)) (map (Pair i) xs)) = filter Q xs"
      by (induction xs) simp_all
    ultimately show ?thesis using i
      by (simp add: indexed_snoc)
  qed
qed

lemma foldl_indexed:
  "foldl (\<lambda>m e. foldl (h (fst e)) m (snd e)) m (zip [0 ..< length xss] xss) =
     foldl (\<lambda>m e. h (fst e) m (snd e)) m (indexed xss)"
proof (induction xss arbitrary: m rule: rev_induct)
  case Nil
  show ?case by simp
next
  case (snoc xs xss)
  have "foldl (h n) m' xs = foldl (\<lambda>m e. h (fst e) m (snd e)) m' (map (Pair n) xs)" for n m'
    by (induction xs arbitrary: m') simp_all
  with snoc show ?case
    by (simp add: indexed_snoc)
qed


lemma addServerPoint_upsert:
  "addServerPoint E tr (getTimeBucketFunction E tr) (getTimeRangeCutoff E tr) i bs p =
     (if kept E tr p
      then upsert (bucketKeyOf E tr p) (emptyCombined (bucketKeyOf E tr p))
             (addServerValues i p) bs
      else bs)"
  by (simp add: addServerPoint_def kept_def beforeCutoff_def bucketKeyOf_def upsert_def
      emptyCombined_def Let_def)

lemma addServer_foldl:
  "addServer E tr bf ct bs e = foldl (addServerPoint E tr bf ct (fst e)) bs (snd e)"
  by (simp add: addServer_def Let_def)

lemma foldl_addServer:
  "foldl (addServer E tr (getTimeBucketFunction E tr) (getTimeRangeCutoff E tr)) []
     (zip [0 ..< length all] all) =
   groupBy (\<lambda>e. bucketKeyOf E tr (snd e)) emptyCombined (\<lambda>e. addServerValues (fst e) (snd e))
     (filter (\<lambda>e. kept E tr (snd e)) (indexed all))"
proof -
  let ?bf = "getTimeBucketFunction E tr" and ?ct = "getTimeRangeCutoff E tr"
  have "foldl (addServer E tr ?bf ?ct) [] (zip [0 ..< length all] all) =
        foldl (\<lambda>m e. foldl (addServerPoint E tr ?bf ?ct (fst e)) m (snd e)) []
          (zip [0 ..< length all] all)"
    by (simp add: addServer_foldl [abs_def])
  also have "\<dots> = foldl (\<lambda>m e. addServerPoint E tr ?bf ?ct (fst e) m (snd e)) [] (indexed all)"
    by (rule foldl_indexed)
  also have "\<dots> = foldl (\<lambda>m e. upsert (bucketKeyOf E tr (snd e))
                       (emptyCombined (bucketKeyOf E tr (snd e)))
                       (addServerValues (fst e) (snd e)) m) []
                     (filter (\<lambda>e. kept E tr (snd e)) (indexed all))"
    by (rule foldl_cond_filter) (rule addServerPoint_upsert)
  finally show ?thesis by (simp add: groupBy_def)
qed

lemma addServerValues_upsert:
  "addServerValues i p b =
     b\<lparr>servers := upsert i \<lparr>s_rx_values = [], s_tx_values = []\<rparr> (pushServerValues p) (servers b)\<rparr>"
  by (simp add: addServerValues_def upsert_def Let_def)

lemma foldl_addServerValues:
  "foldl (\<lambda>b e. addServerValues (fst e) (snd e) b) (emptyCombined k) es =
     \<lparr>c_timestamp = k,
      servers = groupBy fst (\<lambda>i. \<lparr>s_rx_values = [], s_tx_values = []\<rparr>)
                  (\<lambda>e. pushServerValues (snd e)) es\<rparr>"
  by (induction es rule: rev_induct)
     (simp_all add: emptyCombined_def groupBy_snoc addServerValues_upsert)

lemma foldl_pushServerValues:
  "foldl (\<lambda>v e. pushServerValues (snd e) v) \<lparr>s_rx_values = [], s_tx_values = []\<rparr> es =
     \<lparr>s_rx_values = map rxValue (map snd es), s_tx_values = map txValue (map snd es)\<rparr>"
  by (induction es rule: rev_induct)
     (simp_all add: pushServerValues_def rxValue_def txValue_def)


lemma assoc_list_by_keys:
  assumes "distinct (map fst m)" and "\<And>k. k \<in> fst ` set m \<Longrightarrow> map_of m k = Some (g k)"
  shows "m = map (\<lambda>k. (k, g k)) (map fst m)"
proof -
  have "e = (fst e, g (fst e))" if "e \<in> set m" for e
  proof -
    from that have "map_of m (fst e) = Some (snd e)"
      using assms(1) by (metis map_of_is_SomeI prod.collapse)
    moreover have "map_of m (fst e) = Some (g (fst e))"
      using that assms(2) by force
    ultimately show ?thesis by (cases e) simp
  qed
  then have "map (\<lambda>e. (fst e, g (fst e))) m = m"
    by (simp add: map_idI)
  then show ?thesis by (simp add: comp_def)
qed

lemma sorted_distinct_contributing:
  "sorted (contributing E tr k all)" "distinct (contributing E tr k all)"
  using sorted_filter [of "\<lambda>i. i" "[0 ..< length all]"]
  by (simp_all add: contributing_def)

lemma set_contributing:
  "set (contributing E tr k all) =
     {i. i < length all \<and> (\<exists>p\<in>set (all ! i). kept E tr p \<and> bucketKeyOf E tr p = k)}"
  by (auto simp: contributing_def inBucket_def filter_empty_conv)

lemma servers_of_bucket:
  fixes E tr k all
  defines "es \<equiv> filter (\<lambda>e. kept E tr (snd e) \<and> bucketKeyOf E tr (snd e) = k) (indexed all)"
  shows "groupBy fst (\<lambda>i. \<lparr>s_rx_values = [], s_tx_values = []\<rparr>)
           (\<lambda>e. pushServerValues (snd e)) es =
         map (\<lambda>i. (i, serverBucketAt E tr all k i)) (contributing E tr k all)"
proof -
  let ?S = "groupBy fst (\<lambda>i. \<lparr>s_rx_values = [], s_tx_values = []\<rparr>)
              (\<lambda>e. pushServerValues (snd e)) es"
  have es: "es = filter (\<lambda>e. kept E tr (snd e) \<and> bucketKeyOf E tr (snd e) = k) (indexed all)"
    by (simp add: es_def)
  have "sorted (map fst es)"
    unfolding es by (rule sorted_filter) (rule sorted_fst_indexed)
  then have sorted: "sorted (map fst ?S)" by (rule sorted_keys_groupBy)
  have distinct: "distinct (map fst ?S)" by (rule distinct_groupBy)
  have keyset: "fst ` set ?S = set (contributing E tr k all)"
    unfolding keys_groupBy set_contributing es
    by (force simp: set_indexed)
  have keys: "map fst ?S = contributing E tr k all"
    using sorted distinct keyset sorted_distinct_contributing [of E tr k all]
    by (intro sorted_distinct_set_unique) simp_all
  have entry: "map_of ?S i = Some (serverBucketAt E tr all k i)" if "i \<in> fst ` set ?S" for i
  proof -
    from that have i: "i \<in> fst ` set es" by (simp only: keys_groupBy)
    then have len: "i < length all" by (auto simp: es set_indexed)
    have "map snd (filter (\<lambda>e. fst e = i) es) = inBucket E tr k (all ! i)"
      using filter_indexed [OF len, of "\<lambda>p. kept E tr p \<and> bucketKeyOf E tr p = k"]
      by (simp add: es inBucket_def conj_commute conj_left_commute)
    with i show ?thesis
      by (simp add: map_of_groupBy foldl_pushServerValues serverBucketAt_def)
  qed
  have "?S = map (\<lambda>i. (i, serverBucketAt E tr all k i)) (map fst ?S)"
    using distinct entry by (rule assoc_list_by_keys)
  then show ?thesis by (simp only: keys)
qed

lemma combined_entry:
  assumes "k \<in> (\<lambda>e. bucketKeyOf E tr (snd e)) ` set (filter (\<lambda>e. kept E tr (snd e)) (indexed all))"
  shows "map_of (groupBy (\<lambda>e. bucketKeyOf E tr (snd e)) emptyCombined
                   (\<lambda>e. addServerValues (fst e) (snd e))
                   (filter (\<lambda>e. kept E tr (snd e)) (indexed all))) k =
         Some (combinedBucketAt E tr all k)"
  using assms
  by (simp add: map_of_groupBy foldl_addServerValues servers_of_bucket combinedBucketAt_def
      del: set_filter)


lemma foldl_addServerMean:
  assumes "\<forall>i\<in>set is. inBucket E tr k (all ! i) \<noteq> []"
  shows "foldl addServerMean (a, b, c) (map (serverBucketAt E tr all k) is) =
           (foldl js_add a (map (\<lambda>i. js_mean (map rxValue (inBucket E tr k (all ! i)))) is),
            foldl js_add b (map (\<lambda>i. js_mean (map txValue (inBucket E tr k (all ! i)))) is),
            c + length is)"
  using assms
  by (induction "is" arbitrary: a b c)
     (simp_all add: addServerMean_def serverBucketAt_def Let_def)

lemma combinedPoint_at:
  "combinedPoint (combinedBucketAt E tr all k) =
     (case k of None \<Rightarrow> Inl RangeError | Some t \<Rightarrow> Inr (combinedAt E tr all t))"
proof -
  have ne: "\<forall>i\<in>set (contributing E tr k all). inBucket E tr k (all ! i) \<noteq> []"
    by (simp add: contributing_def)
  have "map_values (servers (combinedBucketAt E tr all k)) =
        map (serverBucketAt E tr all k) (contributing E tr k all)"
    by (simp add: map_values_def combinedBucketAt_def comp_def)
  then show ?thesis
    by (simp add: combinedPoint_def foldl_addServerMean [OF ne] combinedAt_def
        sumOfServerMeans_def js_sum_def combinedBucketAt_def split: option.split)
qed

lemma mapE_combinedPoint:
  "mapE combinedPoint (map (combinedBucketAt E tr all) ks) =
     (if None \<in> set ks then Inl RangeError
      else Inr (map (combinedAt E tr all) (somes ks)))"
proof (induction ks)
  case Nil
  show ?case by (simp add: somes_def)
next
  case (Cons k ks)
  show ?case
  proof (cases k)
    case None
    then show ?thesis by (simp add: combinedPoint_at)
  next
    case (Some t)
    with Cons show ?thesis
      by (simp add: combinedPoint_at somes_def)
  qed
qed

lemma sort_combinedAt:
  "sort_key cp_timestamp (map (combinedAt E tr all) ts) = map (combinedAt E tr all) (sort ts)"
  by (simp add: sort_key_map combinedAt_def)

lemma contributing_nonempty:
  assumes "k \<in> set (keptKeys E tr (concat all))"
  shows "contributing E tr k all \<noteq> []"
proof -
  from assms obtain p xs where p: "xs \<in> set all" "p \<in> set xs" "kept E tr p" "bucketKeyOf E tr p = k"
    by (auto simp: keptKeys_def)
  then obtain i where "i < length all" "all ! i = xs"
    by (auto simp: in_set_conv_nth)
  with p have "i \<in> set (contributing E tr k all)"
    by (auto simp: set_contributing)
  then show ?thesis by auto
qed

lemma filter_server_count:
  assumes "\<forall>t\<in>set ts. Some t \<in> set (keptKeys E tr (concat all))"
  shows "filter (\<lambda>point. server_count point > 0) (map (combinedAt E tr all) ts) =
           map (combinedAt E tr all) ts"
proof -
  have "server_count (combinedAt E tr all t) > 0" if "t \<in> set ts" for t
    using that assms contributing_nonempty [of "Some t" E tr all]
    by (simp add: combinedAt_def)
  then show ?thesis by (simp add: filter_id_conv)
qed

lemma aggregateCombinedServerData_spec:
  "aggregateCombinedServerData E all tr = combinedSpec E all tr"
proof (cases "all = []")
  case True
  then show ?thesis
    by (simp add: aggregateCombinedServerData_def combinedSpec_def allCombinedPoints_def
        keptKeys_def bucketTimes_def somes_def slice_last_def)
next
  case False
  let ?es = "filter (\<lambda>e. kept E tr (snd e)) (indexed all)"
  let ?G = "groupBy (\<lambda>e. bucketKeyOf E tr (snd e)) emptyCombined
              (\<lambda>e. addServerValues (fst e) (snd e)) ?es"
  let ?ks = "map fst ?G"
  let ?keys = "keptKeys E tr (concat all)"
  let ?n = "getTargetDataPoints tr"
  have "(\<lambda>e. bucketKeyOf E tr (snd e)) ` set ?es = set ?keys"
  proof -
    have "set ?keys = bucketKeyOf E tr ` {p \<in> set (map snd (indexed all)). kept E tr p}"
      by (simp add: keptKeys_def snd_indexed)
    also have "\<dots> = (\<lambda>e. bucketKeyOf E tr (snd e)) ` set ?es"
      by force
    finally show ?thesis by simp
  qed
  then have ks: "distinct ?ks" "set ?ks = set ?keys"
    using keys_groupBy [of "\<lambda>e. bucketKeyOf E tr (snd e)" emptyCombined
        "\<lambda>e. addServerValues (fst e) (snd e)" ?es]
    by (simp_all add: distinct_groupBy)
  have "?G = map (\<lambda>k. (k, combinedBucketAt E tr all k)) ?ks"
    by (rule assoc_list_by_keys) (simp_all only: distinct_groupBy keys_groupBy combined_entry)
  then have "map snd ?G = map snd (map (\<lambda>k. (k, combinedBucketAt E tr all k)) ?ks)"
    by simp
  then have vals: "map_values ?G = map (combinedBucketAt E tr all) ?ks"
    by (simp add: map_values_def comp_def)
  have times: "sort (somes ?ks) = bucketTimes ?keys"
    using ks by (rule bucketTimes_of_keys)
  have points: "mapE combinedPoint (map_values ?G) =
      (if None \<in> set ?keys then Inl RangeError
       else Inr (map (combinedAt E tr all) (somes ?ks)))"
    unfolding vals mapE_combinedPoint ks(2) ..
  have pos: "filter (\<lambda>point. server_count point > 0) (map (combinedAt E tr all) (somes ?ks)) =
      map (combinedAt E tr all) (somes ?ks)"
    using ks(2) by (intro filter_server_count) (auto simp: set_somes simp del: set_map)
  have cut: "(if ?n < length xs then Inr (slice_last ?n xs) else Inr xs) =
      (Inr (slice_last ?n xs) :: exn + combined_point list)" for xs
    by (simp add: slice_last_all)
  have "aggregateCombinedServerData E all tr =
      (case mapE combinedPoint (map_values ?G) of
         Inl e \<Rightarrow> Inl e
       | Inr points \<Rightarrow>
           Inr (slice_last ?n
                  (sort_key cp_timestamp (filter (\<lambda>point. server_count point > 0) points))))"
    using False unfolding aggregateCombinedServerData_def Let_def foldl_addServer cut by simp
  also have "\<dots> = combinedSpec E all tr"
    unfolding points combinedSpec_def allCombinedPoints_def
    by (simp add: pos sort_combinedAt times)
  finally show ?thesis .
qed

section \<open>Evaluation of concrete runs\<close>

lemmas js_eval = js_div_def js_mul_def js_inf_def js_sgn_def Math_floor_def or0_def js_sum_def
  js_mean_def mean_or_0_def js_trunc_def TimeClip_def js_lt_def

lemmas time_eval = LocalTime_def UTC_def getSeconds_def getMinutes_def getHours_def setSeconds_def startOfMinute_def
  startOfHour_def startOfDay_def addSeconds_def addMinutes_def subMinutes_def subHours_def
  subDays_def addHours_def intervalSeconds_def standardizeTimestamp_def minuteBucket_def
  hourBucket_def getTimeBucketFunction_def getTargetDataPoints_def getTimeRangeCutoff_def
  normalizeTimestamp_def normalizeTimestamp_try_def

lemmas agg_eval = mk_sample_def missing_def skipped_def map_has_def map_set_def map_values_def
  slice_last_def pushValues_def addPoint_def bucketPoint_def aggregateDataByTime_def
  pushServerValues_def addServerValues_def addServerPoint_def addServer_def addServerMean_def
  combinedPoint_def aggregateCombinedServerData_def

lemmas string_eval = StringToNumber_def trimString_def isWhiteSpace_def parseNonDecimal_def
  splitSign_def parseUnsignedDecimal_def parseExponent_def isDigit_def digitOf_def digitsVal_def
  pow10_def

section \<open>Dropping samples that are not kept\<close>

lemma filter_kept_drop:
  assumes "\<And>p. D p \<Longrightarrow> \<not> kept E tr p"
  shows "filter (kept E tr) (filter (\<lambda>p. \<not> D p) xs) = filter (kept E tr) xs"
  using assms by (induction xs) auto

lemma keptKeys_drop:
  assumes "\<And>p. D p \<Longrightarrow> \<not> kept E tr p"
  shows "keptKeys E tr (filter (\<lambda>p. \<not> D p) xs) = keptKeys E tr xs"
  using assms by (induction xs) (auto simp: keptKeys_def)

lemma inBucket_drop:
  assumes "\<And>p. D p \<Longrightarrow> \<not> kept E tr p"
  shows "inBucket E tr k (filter (\<lambda>p. \<not> D p) xs) = inBucket E tr k xs"
  using assms by (induction xs) (auto simp: inBucket_def)

lemma pointAt_drop:
  assumes "\<And>p. D p \<Longrightarrow> \<not> kept E tr p"
  shows "pointAt E tr (filter (\<lambda>p. \<not> D p) raw) = pointAt E tr raw"
proof
  fix t
  show "pointAt E tr (filter (\<lambda>p. \<not> D p) raw) t = pointAt E tr raw t"
    using inBucket_drop [of D E tr "Some t" raw, OF assms] by (simp add: pointAt_def)
qed

lemma aggregateDataByTime_drop:
  assumes "\<And>p. D p \<Longrightarrow> \<not> kept E tr p"
  shows "aggregateDataByTime E (filter (\<lambda>p. \<not> D p) raw) tr = aggregateDataByTime E raw tr"
  using keptKeys_drop [of D E tr raw, OF assms] pointAt_drop [of D E tr raw, OF assms]
  by (simp add: aggregateDataByTime_spec aggregateSpec_def allPoints_def)

lemma contributing_drop:
  assumes "\<And>p. D p \<Longrightarrow> \<not> kept E tr p"
  shows "contributing E tr k (map (filter (\<lambda>p. \<not> D p)) all) = contributing E tr k all"
  unfolding contributing_def
  by (rule filter_cong) (simp_all add: inBucket_drop [of D E tr, OF assms])

lemma sumOfServerMeans_drop:
  assumes "\<And>p. D p \<Longrightarrow> \<not> kept E tr p"
  shows "sumOfServerMeans rate E tr k (map (filter (\<lambda>p. \<not> D p)) all) =
           sumOfServerMeans rate E tr k all"
proof -
  have "i < length all" if "i \<in> set (contributing E tr k all)" for i
    using that by (simp add: contributing_def)
  then have m: "map (\<lambda>i. js_mean (map rate (inBucket E tr k (map (filter (\<lambda>p. \<not> D p)) all ! i))))
               (contributing E tr k all) =
             map (\<lambda>i. js_mean (map rate (inBucket E tr k (all ! i)))) (contributing E tr k all)"
    by (intro map_cong) (simp_all add: inBucket_drop [of D E tr, OF assms])
  have c: "contributing E tr k (map (filter (\<lambda>p. \<not> D p)) all) = contributing E tr k all"
    by (rule contributing_drop [of D E tr k all, OF assms])
  show ?thesis
    unfolding sumOfServerMeans_def c m ..
qed

lemma combinedAt_drop:
  assumes "\<And>p. D p \<Longrightarrow> \<not> kept E tr p"
  shows "combinedAt E tr (map (filter (\<lambda>p. \<not> D p)) all) = combinedAt E tr all"
proof
  fix t
  show "combinedAt E tr (map (filter (\<lambda>p. \<not> D p)) all) t = combinedAt E tr all t"
    using contributing_drop [of D E tr "Some t" all, OF assms]
      sumOfServerMeans_drop [of D E tr _ "Some t" all, OF assms]
    by (simp add: combinedAt_def)
qed

lemma aggregateCombinedServerData_drop:
  assumes "\<And>p. D p \<Longrightarrow> \<not> kept E tr p"
  shows "aggregateCombinedServerData E (map (filter (\<lambda>p. \<not> D p)) all) tr =
           aggregateCombinedServerData E all tr"
proof -
  have "concat (map (filter (\<lambda>p. \<not> D p)) all) = filter (\<lambda>p. \<not> D p) (concat all)"
    by (simp add: filter_concat)
  then have k: "keptKeys E tr (concat (map (filter (\<lambda>p. \<not> D p)) all)) = keptKeys E tr (concat all)"
    using keptKeys_drop [of D E tr "concat all", OF assms] by simp
  have c: "combinedAt E tr (map (filter (\<lambda>p. \<not> D p)) all) = combinedAt E tr all"
    by (rule combinedAt_drop [of D E tr all, OF assms])
  show ?thesis
    unfolding aggregateCombinedServerData_spec combinedSpec_def allCombinedPoints_def k c ..
qed

lemma missing_iff:
  "missing v \<longleftrightarrow> v = JUndefined \<or> v = JNull \<or> v = JBool False \<or> v = JNum NaN \<or> v = JStr []"
  by (cases v) (auto simp: missing_def)


section \<open>Invalid rates (C1) and the cutoff (C8)\<close>

lemma set_slice_last: "set (slice_last n xs) \<subseteq> set xs"
  by (simp add: slice_last_def set_drop_subset)

lemma aggregateDataByTime_points:
  assumes "aggregateDataByTime E raw tr = Inr out" "pt \<in> set out"
  shows "pt = pointAt E tr raw (p_timestamp pt)"
proof -
  from assms(1) have "out = slice_last (getTargetDataPoints tr)
      (map (pointAt E tr raw) (bucketTimes (keptKeys E tr raw)))"
    by (simp add: aggregateDataByTime_spec aggregateSpec_def allPoints_def split: if_splits)
  with assms(2) set_slice_last have "pt \<in> set (map (pointAt E tr raw) (bucketTimes (keptKeys E tr raw)))"
    by fastforce
  then obtain t where "pt = pointAt E tr raw t" by auto
  then show ?thesis by (simp add: pointAt_def)
qed

text \<open>
  C1 (as amended). A sample whose \<open>rx_rate\<close> or \<open>tx_rate\<close> is \<open>undefined\<close>, \<open>null\<close>,
  \<open>false\<close>, \<open>NaN\<close> or the empty string is skipped by \<open>aggregateDataByTime\<close>: the result
  is the result on the input without these samples, and every point that is returned
  carries the means and the count of the kept samples of its bucket alone. Any other
  value passes the guard and is counted with \<open>Number(value) || 0\<close>.
\<close>

theorem aggregateDataByTime_skips_missing_rates:
  "(missing v \<longleftrightarrow> v = JUndefined \<or> v = JNull \<or> v = JBool False \<or> v = JNum NaN \<or> v = JStr []) \<and>
   aggregateDataByTime E
     (filter (\<lambda>p. \<not> (missing (rx_rate p) \<or> missing (tx_rate p))) rawData) timeRange =
     aggregateDataByTime E rawData timeRange \<and>
   (aggregateDataByTime E rawData timeRange = Inr out \<longrightarrow>
      (\<forall>pt\<in>set out. pt = pointAt E timeRange rawData (p_timestamp pt)))"
proof (intro conjI impI ballI)
  show "missing v \<longleftrightarrow> v = JUndefined \<or> v = JNull \<or> v = JBool False \<or> v = JNum NaN \<or> v = JStr []"
    by (rule missing_iff)
next
  show "aggregateDataByTime E
     (filter (\<lambda>p. \<not> (missing (rx_rate p) \<or> missing (tx_rate p))) rawData) timeRange =
     aggregateDataByTime E rawData timeRange"
    by (rule aggregateDataByTime_drop) (simp add: kept_def skipped_def)
next
  fix pt
  assume "aggregateDataByTime E rawData timeRange = Inr out" "pt \<in> set out"
  then show "pt = pointAt E timeRange rawData (p_timestamp pt)"
    by (rule aggregateDataByTime_points)
qed

lemma run_one:
  "aggregateDataByTime env0
     [mk_sample (JNum (Fin 1699999990000)) (JNum (Fin 10)) (JNum (Fin 20))] ''1h'' =
   Inr [\<lparr>p_timestamp = 1699999980000, p_rx_rate = Fin 10, p_tx_rate = Fin 20, data_points = 1\<rparr>]"
  by (simp add: agg_eval time_eval js_eval fl_eval)

theorem aggregateDataByTime_skips_missing_rates_witness:
  "missing JNull \<and>
   aggregateDataByTime env0
     [mk_sample (JNum (Fin 1699999990000)) (JNum (Fin 10)) (JNum (Fin 20)),
      mk_sample (JNum (Fin 1699999990000)) JNull (JNum (Fin 40)),
      mk_sample (JNum (Fin 1699999990000)) (JNum (Fin 30)) JUndefined] ''1h'' =
   Inr [\<lparr>p_timestamp = 1699999980000, p_rx_rate = Fin 10, p_tx_rate = Fin 20, data_points = 1\<rparr>] \<and>
   pointAt env0 ''1h''
     [mk_sample (JNum (Fin 1699999990000)) (JNum (Fin 10)) (JNum (Fin 20))] 1699999980000 =
   \<lparr>p_timestamp = 1699999980000, p_rx_rate = Fin 10, p_tx_rate = Fin 20, data_points = 1\<rparr>"
  using aggregateDataByTime_skips_missing_rates [of JNull env0
      "[mk_sample (JNum (Fin 1699999990000)) (JNum (Fin 10)) (JNum (Fin 20)),
        mk_sample (JNum (Fin 1699999990000)) JNull (JNum (Fin 40)),
        mk_sample (JNum (Fin 1699999990000)) (JNum (Fin 30)) JUndefined]" "''1h''"]
    aggregateDataByTime_skips_missing_rates [of JNull env0
      "[mk_sample (JNum (Fin 1699999990000)) (JNum (Fin 10)) (JNum (Fin 20))]" "''1h''"
      "[\<lparr>p_timestamp = 1699999980000, p_rx_rate = Fin 10, p_tx_rate = Fin 20, data_points = 1\<rparr>]"]
    run_one
  by (simp add: mk_sample_def missing_def)

theorem aggregateDataByTime_nonnumeric_rate_counterexample:
  "aggregateDataByTime env0
     [mk_sample (JNum (Fin 1699999990000)) (JNum (Fin 10)) (JNum (Fin 10)),
      mk_sample (JNum (Fin 1699999990000)) (JStr ''abc'') (JNum (Fin 10))] ''1h'' =
   Inr [\<lparr>p_timestamp = 1699999980000, p_rx_rate = Fin 5, p_tx_rate = Fin 10, data_points = 2\<rparr>]"
  by (simp add: agg_eval time_eval js_eval fl_eval string_eval)


lemma beforeCutoff_valid:
  "normalizeTimestamp E (timestamp p) = JDate (Some t) \<Longrightarrow>
     beforeCutoff E tr p \<longleftrightarrow> t < getTimeRangeCutoff E tr"
  by (simp add: beforeCutoff_def js_lt_def)

text \<open>
  C8 (as amended). For \<open>1h\<close>, \<open>6h\<close>, \<open>12h\<close>, \<open>1d\<close> and an unknown label the cutoff is the
  clock minus 1, 6, 12, 24 and 1 hours. For \<open>3d\<close> and \<open>1w\<close> it is the instant that shows
  the same local time of day 3 and 7 calendar days before the clock; this is the clock
  minus 3 and 7 times 24 hours when the zone offset by which that local time is read is
  the offset in force at the clock, and differs from it by the change of the offset
  otherwise. A sample whose normalised time value is strictly below the cutoff is
  dropped before bucketing, so the result of either aggregation is the result on the
  input without these samples.
\<close>

theorem cutoff_is_now_minus_duration_and_excludes:
  "getTimeRangeCutoff E ''1h'' = clock E - 3600000 \<and>
   getTimeRangeCutoff E ''6h'' = clock E - 6 * 3600000 \<and>
   getTimeRangeCutoff E ''12h'' = clock E - 12 * 3600000 \<and>
   getTimeRangeCutoff E ''1d'' = clock E - 24 * 3600000 \<and>
   getTimeRangeCutoff E ''3d'' = UTC E (LocalTime E (clock E) - 3 * 86400000) \<and>
   getTimeRangeCutoff E ''1w'' = UTC E (LocalTime E (clock E) - 7 * 86400000) \<and>
   getTimeRangeCutoff E ''3d'' =
     clock E - 3 * 86400000 +
       (LocalTZA E (clock E) True - LocalTZA E (LocalTime E (clock E) - 3 * 86400000) False) \<and>
   getTimeRangeCutoff E ''1w'' =
     clock E - 7 * 86400000 +
       (LocalTZA E (clock E) True - LocalTZA E (LocalTime E (clock E) - 7 * 86400000) False) \<and>
   (LocalTZA E (LocalTime E (clock E) - 3 * 86400000) False = LocalTZA E (clock E) True \<longrightarrow>
      getTimeRangeCutoff E ''3d'' = clock E - 3 * 86400000) \<and>
   (LocalTZA E (LocalTime E (clock E) - 7 * 86400000) False = LocalTZA E (clock E) True \<longrightarrow>
      getTimeRangeCutoff E ''1w'' = clock E - 7 * 86400000) \<and>
   (timeRange \<notin> {''1h'', ''6h'', ''12h'', ''1d'', ''3d'', ''1w''} \<longrightarrow>
      getTimeRangeCutoff E timeRange = clock E - 3600000) \<and>
   (normalizeTimestamp E (timestamp p) = JDate (Some t) \<longrightarrow>
      (beforeCutoff E timeRange p \<longleftrightarrow> t < getTimeRangeCutoff E timeRange)) \<and>
   aggregateDataByTime E (filter (\<lambda>p. \<not> beforeCutoff E timeRange p) rawData) timeRange =
     aggregateDataByTime E rawData timeRange \<and>
   aggregateCombinedServerData E
     (map (filter (\<lambda>p. \<not> beforeCutoff E timeRange p)) allServerData) timeRange =
     aggregateCombinedServerData E allServerData timeRange"
proof (intro conjI impI)
  show "aggregateDataByTime E (filter (\<lambda>p. \<not> beforeCutoff E timeRange p) rawData) timeRange =
     aggregateDataByTime E rawData timeRange"
    by (rule aggregateDataByTime_drop) (simp add: kept_def)
  show "aggregateCombinedServerData E
     (map (filter (\<lambda>p. \<not> beforeCutoff E timeRange p)) allServerData) timeRange =
     aggregateCombinedServerData E allServerData timeRange"
    by (rule aggregateCombinedServerData_drop) (simp add: kept_def)
  assume "normalizeTimestamp E (timestamp p) = JDate (Some t)"
  then show "beforeCutoff E timeRange p \<longleftrightarrow> t < getTimeRangeCutoff E timeRange"
    by (rule beforeCutoff_valid)
qed (simp_all add: getTimeRangeCutoff_def subHours_def subDays_def UTC_def LocalTime_def Let_def)

theorem cutoff_is_now_minus_duration_and_excludes_witness:
  "getTimeRangeCutoff env0 ''1h'' = 1699996400000 \<and>
   getTimeRangeCutoff env0 ''3d'' = 1699740800000 \<and>
   getTimeRangeCutoff env0 ''1w'' = 1699395200000 \<and>
   ''30m'' \<notin> {''1h'', ''6h'', ''12h'', ''1d'', ''3d'', ''1w''} \<and>
   getTimeRangeCutoff env0 ''30m'' = 1699996400000 \<and>
   normalizeTimestamp env0 (timestamp (mk_sample (JNum (Fin 1699992800000)) (JNum (Fin 99)) (JNum (Fin 99)))) =
     JDate (Some 1699992800000) \<and>
   beforeCutoff env0 ''1h'' (mk_sample (JNum (Fin 1699992800000)) (JNum (Fin 99)) (JNum (Fin 99))) \<and>
   aggregateDataByTime env0
     [mk_sample (JNum (Fin 1699992800000)) (JNum (Fin 99)) (JNum (Fin 99)),
      mk_sample (JNum (Fin 1699999990000)) (JNum (Fin 10)) (JNum (Fin 20))] ''1h'' =
   Inr [\<lparr>p_timestamp = 1699999980000, p_rx_rate = Fin 10, p_tx_rate = Fin 20, data_points = 1\<rparr>]"
proof -
  let ?old = "mk_sample (JNum (Fin 1699992800000)) (JNum (Fin 99)) (JNum (Fin 99))"
  let ?new = "mk_sample (JNum (Fin 1699999990000)) (JNum (Fin 10)) (JNum (Fin 20))"
  have n: "normalizeTimestamp env0 (timestamp ?old) = JDate (Some 1699992800000)"
    by (simp add: mk_sample_def time_eval js_eval)
  have m: "normalizeTimestamp env0 (timestamp ?new) = JDate (Some 1699999990000)"
    by (simp add: mk_sample_def time_eval js_eval)
  note c = cutoff_is_now_minus_duration_and_excludes
    [of env0 "''30m''" ?old 1699992800000 "[?old, ?new]" "[]"]
  note d = cutoff_is_now_minus_duration_and_excludes
    [of env0 "''1h''" ?old 1699992800000 "[?old, ?new]" "[]"]
  note e = cutoff_is_now_minus_duration_and_excludes
    [of env0 "''1h''" ?new 1699999990000 "[?old, ?new]" "[]"]
  have old: "beforeCutoff env0 ''1h'' ?old" using d n by simp
  have new: "\<not> beforeCutoff env0 ''1h'' ?new" using e m by simp
  have "aggregateDataByTime env0 [?old, ?new] ''1h'' = aggregateDataByTime env0 [?new] ''1h''"
    using d old new by simp
  with c d n old run_one show ?thesis by simp
qed

text \<open>
  In the zone of \<open>env_dst\<close> the clock change lies inside the last week: the cutoff of \<open>1w\<close>
  is 2023-11-01 16:00 UTC (noon local time, 169 hours before the clock), one hour
  earlier than the clock minus 7 times 24 hours. The sample of 16:30 UTC that day is more
  than 168 hours old, is not below the cutoff, and makes a point of the series.
\<close>

theorem cutoff_across_clock_change_counterexample:
  "getTimeRangeCutoff env_dst ''1w'' = 1698854400000 \<and>
   clock env_dst - 7 * 86400000 = 1698858000000 \<and>
   normalizeTimestamp env_dst
     (timestamp (mk_sample (JNum (Fin 1698856200000)) (JNum (Fin 1)) (JNum (Fin 2)))) =
     JDate (Some 1698856200000) \<and>
   aggregateDataByTime env_dst
     [mk_sample (JNum (Fin 1698856200000)) (JNum (Fin 1)) (JNum (Fin 2))] ''1w'' =
   Inr [\<lparr>p_timestamp = 1698850800000, p_rx_rate = Fin 1, p_tx_rate = Fin 2, data_points = 1\<rparr>]"
  by (simp add: agg_eval time_eval js_eval fl_eval)

section \<open>Order and size of the series (C5, C6)\<close>

lemma strict_bucketTimes: "sorted_wrt (<) (bucketTimes keys)"
  by (simp add: bucketTimes_def strict_sorted_iff)

lemma timestamps_allPoints: "map p_timestamp (allPoints E tr raw) = bucketTimes (keptKeys E tr raw)"
  by (simp add: allPoints_def pointAt_def comp_def)

lemma timestamps_allCombinedPoints:
  "map cp_timestamp (allCombinedPoints E tr all) = bucketTimes (keptKeys E tr (concat all))"
  by (simp add: allCombinedPoints_def combinedAt_def comp_def)

lemma aggregateDataByTime_Inr:
  "aggregateDataByTime E raw tr = Inr out \<Longrightarrow>
     out = slice_last (getTargetDataPoints tr) (allPoints E tr raw)"
  by (simp add: aggregateDataByTime_spec aggregateSpec_def split: if_splits)

lemma aggregateCombinedServerData_Inr:
  "aggregateCombinedServerData E all tr = Inr out \<Longrightarrow>
     out = slice_last (getTargetDataPoints tr) (allCombinedPoints E tr all)"
  by (simp add: aggregateCombinedServerData_spec combinedSpec_def split: if_splits)

lemma strict_slice_last:
  assumes "sorted_wrt (<) (map f xs)"
  shows "sorted_wrt (<) (map f (slice_last n xs))"
  using assms sorted_wrt_drop [of "(<)" "map f xs" "length xs - n"]
  by (simp add: slice_last_def drop_map)

lemma strict_nth:
  fixes ts :: "int list"
  assumes "sorted_wrt (<) ts" "Suc i < length ts"
  shows "ts ! i < ts ! Suc i"
  using assms by (simp add: sorted_wrt_iff_nth_less)

text \<open>
  C5. Whenever \<open>aggregateDataByTime\<close> or \<open>aggregateCombinedServerData\<close> returns a series,
  its time stamps are strictly ascending: every point is earlier than every later point,
  in particular than its successor, and no time stamp occurs twice.
\<close>

theorem series_strictly_ascending:
  "(aggregateDataByTime E rawData timeRange = Inr out \<longrightarrow>
      sorted_wrt (<) (map p_timestamp out) \<and> distinct (map p_timestamp out) \<and>
      (\<forall>i. Suc i < length out \<longrightarrow> p_timestamp (out ! i) < p_timestamp (out ! Suc i))) \<and>
   (aggregateCombinedServerData E allServerData timeRange = Inr outc \<longrightarrow>
      sorted_wrt (<) (map cp_timestamp outc) \<and> distinct (map cp_timestamp outc) \<and>
      (\<forall>i. Suc i < length outc \<longrightarrow> cp_timestamp (outc ! i) < cp_timestamp (outc ! Suc i)))"
proof (intro conjI impI allI)
  assume a: "aggregateDataByTime E rawData timeRange = Inr out"
  have "sorted_wrt (<) (map p_timestamp (allPoints E timeRange rawData))"
    by (simp only: timestamps_allPoints strict_bucketTimes)
  then show s: "sorted_wrt (<) (map p_timestamp out)"
    unfolding aggregateDataByTime_Inr [OF a] by (rule strict_slice_last)
  then show "distinct (map p_timestamp out)"
    by (simp only: strict_sorted_iff)
  fix i assume "Suc i < length out"
  with s show "p_timestamp (out ! i) < p_timestamp (out ! Suc i)"
    using strict_nth [of "map p_timestamp out" i] by simp
next
  assume a: "aggregateCombinedServerData E allServerData timeRange = Inr outc"
  have "sorted_wrt (<) (map cp_timestamp (allCombinedPoints E timeRange allServerData))"
    by (simp only: timestamps_allCombinedPoints strict_bucketTimes)
  then show s: "sorted_wrt (<) (map cp_timestamp outc)"
    unfolding aggregateCombinedServerData_Inr [OF a] by (rule strict_slice_last)
  then show "distinct (map cp_timestamp outc)"
    by (simp only: strict_sorted_iff)
  fix i assume "Suc i < length outc"
  with s show "cp_timestamp (outc ! i) < cp_timestamp (outc ! Suc i)"
    using strict_nth [of "map cp_timestamp outc" i] by simp
qed

text \<open>Two samples given in descending order of time, in two buckets.\<close>

lemma run_two:
  "aggregateDataByTime env0
     [mk_sample (JNum (Fin 1699999990000)) (JNum (Fin 10)) (JNum (Fin 20)),
      mk_sample (JNum (Fin 1699999900000)) (JNum (Fin 30)) (JNum (Fin 40))] ''1h'' =
   Inr [\<lparr>p_timestamp = 1699999860000, p_rx_rate = Fin 30, p_tx_rate = Fin 40, data_points = 1\<rparr>,
        \<lparr>p_timestamp = 1699999980000, p_rx_rate = Fin 10, p_tx_rate = Fin 20, data_points = 1\<rparr>]"
  by (simp add: agg_eval time_eval js_eval fl_eval)

lemma run_two_servers:
  "aggregateCombinedServerData env0
     [[mk_sample (JNum (Fin 1699999990000)) (JNum (Fin 10)) (JNum (Fin 20))],
      [mk_sample (JNum (Fin 1699999900000)) (JNum (Fin 30)) (JNum (Fin 40))]] ''1h'' =
   Inr [\<lparr>cp_timestamp = 1699999860000, total_rx = Fin 30, total_tx = Fin 40, server_count = 1\<rparr>,
        \<lparr>cp_timestamp = 1699999980000, total_rx = Fin 10, total_tx = Fin 20, server_count = 1\<rparr>]"
  by (simp add: agg_eval time_eval js_eval fl_eval)

theorem series_strictly_ascending_witness:
  "aggregateDataByTime env0
     [mk_sample (JNum (Fin 1699999990000)) (JNum (Fin 10)) (JNum (Fin 20)),
      mk_sample (JNum (Fin 1699999900000)) (JNum (Fin 30)) (JNum (Fin 40))] ''1h'' =
   Inr [\<lparr>p_timestamp = 1699999860000, p_rx_rate = Fin 30, p_tx_rate = Fin 40, data_points = 1\<rparr>,
        \<lparr>p_timestamp = 1699999980000, p_rx_rate = Fin 10, p_tx_rate = Fin 20, data_points = 1\<rparr>] \<and>
   sorted_wrt (<) [1699999860000, 1699999980000 :: int] \<and>
   aggregateCombinedServerData env0
     [[mk_sample (JNum (Fin 1699999990000)) (JNum (Fin 10)) (JNum (Fin 20))],
      [mk_sample (JNum (Fin 1699999900000)) (JNum (Fin 30)) (JNum (Fin 40))]] ''1h'' =
   Inr [\<lparr>cp_timestamp = 1699999860000, total_rx = Fin 30, total_tx = Fin 40, server_count = 1\<rparr>,
        \<lparr>cp_timestamp = 1699999980000, total_rx = Fin 10, total_tx = Fin 20, server_count = 1\<rparr>]"
  using series_strictly_ascending [of env0
      "[mk_sample (JNum (Fin 1699999990000)) (JNum (Fin 10)) (JNum (Fin 20)),
        mk_sample (JNum (Fin 1699999900000)) (JNum (Fin 30)) (JNum (Fin 40))]" "''1h''"
      "[\<lparr>p_timestamp = 1699999860000, p_rx_rate = Fin 30, p_tx_rate = Fin 40, data_points = 1\<rparr>,
        \<lparr>p_timestamp = 1699999980000, p_rx_rate = Fin 10, p_tx_rate = Fin 20, data_points = 1\<rparr>]"
      "[[mk_sample (JNum (Fin 1699999990000)) (JNum (Fin 10)) (JNum (Fin 20))],
        [mk_sample (JNum (Fin 1699999900000)) (JNum (Fin 30)) (JNum (Fin 40))]]"
      "[\<lparr>cp_timestamp = 1699999860000, total_rx = Fin 30, total_tx = Fin 40, server_count = 1\<rparr>,
        \<lparr>cp_timestamp = 1699999980000, total_rx = Fin 10, total_tx = Fin 20, server_count = 1\<rparr>]"]
    run_two run_two_servers
  by simp


text \<open>
  C6. The target count is 60 for every label. A returned series has at most 60 points:
  it is the ascending series of all buckets when there are at most 60 of them, and
  otherwise exactly its last 60 points, all of them later than every bucket that was cut.
\<close>

theorem series_at_most_sixty_most_recent:
  "getTargetDataPoints timeRange = 60 \<and>
   (aggregateDataByTime E rawData timeRange = Inr out \<longrightarrow>
      length out = min 60 (length (allPoints E timeRange rawData)) \<and>
      out = drop (length (allPoints E timeRange rawData) - 60) (allPoints E timeRange rawData) \<and>
      (\<forall>p\<in>set (take (length (allPoints E timeRange rawData) - 60) (allPoints E timeRange rawData)).
         \<forall>q\<in>set out. p_timestamp p < p_timestamp q)) \<and>
   (aggregateCombinedServerData E allServerData timeRange = Inr outc \<longrightarrow>
      length outc = min 60 (length (allCombinedPoints E timeRange allServerData)) \<and>
      outc = drop (length (allCombinedPoints E timeRange allServerData) - 60)
               (allCombinedPoints E timeRange allServerData) \<and>
      (\<forall>p\<in>set (take (length (allCombinedPoints E timeRange allServerData) - 60)
                  (allCombinedPoints E timeRange allServerData)).
         \<forall>q\<in>set outc. cp_timestamp p < cp_timestamp q))"
proof (intro conjI impI ballI)
  show n: "getTargetDataPoints timeRange = 60"
    by (simp add: getTargetDataPoints_def)
  {
    assume a: "aggregateDataByTime E rawData timeRange = Inr out"
    let ?all = "allPoints E timeRange rawData"
    show o: "out = drop (length ?all - 60) ?all"
      using aggregateDataByTime_Inr [OF a] n by (simp add: slice_last_def)
    then show "length out = min 60 (length ?all)" by simp
    fix p q assume p: "p \<in> set (take (length ?all - 60) ?all)" and q: "q \<in> set out"
    have "sorted_wrt (<) (map p_timestamp (take (length ?all - 60) ?all @ drop (length ?all - 60) ?all))"
      by (simp only: append_take_drop_id timestamps_allPoints strict_bucketTimes)
    with p q o show "p_timestamp p < p_timestamp q"
      by (simp add: sorted_wrt_append del: append_take_drop_id)
  }
  {
    assume a: "aggregateCombinedServerData E allServerData timeRange = Inr outc"
    let ?all = "allCombinedPoints E timeRange allServerData"
    show o: "outc = drop (length ?all - 60) ?all"
      using aggregateCombinedServerData_Inr [OF a] n by (simp add: slice_last_def)
    then show "length outc = min 60 (length ?all)" by simp
    fix p q assume p: "p \<in> set (take (length ?all - 60) ?all)" and q: "q \<in> set outc"
    have "sorted_wrt (<) (map cp_timestamp (take (length ?all - 60) ?all @ drop (length ?all - 60) ?all))"
      by (simp only: append_take_drop_id timestamps_allCombinedPoints strict_bucketTimes)
    with p q o show "cp_timestamp p < cp_timestamp q"
      by (simp add: sorted_wrt_append del: append_take_drop_id)
  }
qed


lemmas spec_eval = kept_def beforeCutoff_def bucketKeyOf_def keptKeys_def somes_def bucketTimes_def
  inBucket_def pointAt_def allPoints_def rxValue_def txValue_def

lemma keys61:
  "keptKeys env0 ''1h'' (minuteSamples 61) = map (\<lambda>i. Some (1699999980000 - 60000 * int i)) [0 ..< 61]"
  unfolding minuteSamples_def
  by (simp add: upt_rec spec_eval mk_sample_def skipped_def missing_def time_eval js_eval)


lemma length_allPoints61: "length (allPoints env0 ''1h'' (minuteSamples 61)) = 61"
  unfolding allPoints_def keys61
  by (simp add: upt_rec bucketTimes_def somes_def)

lemma valid_keys61: "None \<notin> set (keptKeys env0 ''1h'' (minuteSamples 61))"
  unfolding keys61 by auto

theorem series_at_most_sixty_most_recent_witness:
  "length (allPoints env0 ''1h'' (minuteSamples 61)) = 61 \<and>
   (\<exists>out. aggregateDataByTime env0 (minuteSamples 61) ''1h'' = Inr out \<and> length out = 60 \<and>
      out = drop 1 (allPoints env0 ''1h'' (minuteSamples 61))) \<and>
   aggregateCombinedServerData env0
     [[mk_sample (JNum (Fin 1699999990000)) (JNum (Fin 10)) (JNum (Fin 20))],
      [mk_sample (JNum (Fin 1699999900000)) (JNum (Fin 30)) (JNum (Fin 40))]] ''1h'' =
   Inr [\<lparr>cp_timestamp = 1699999860000, total_rx = Fin 30, total_tx = Fin 40, server_count = 1\<rparr>,
        \<lparr>cp_timestamp = 1699999980000, total_rx = Fin 10, total_tx = Fin 20, server_count = 1\<rparr>] \<and>
   min 60 (length (allCombinedPoints env0 ''1h''
     [[mk_sample (JNum (Fin 1699999990000)) (JNum (Fin 10)) (JNum (Fin 20))],
      [mk_sample (JNum (Fin 1699999900000)) (JNum (Fin 30)) (JNum (Fin 40))]])) = 2"
proof -
  let ?out = "slice_last (getTargetDataPoints ''1h'') (allPoints env0 ''1h'' (minuteSamples 61))"
  let ?two = "[[mk_sample (JNum (Fin 1699999990000)) (JNum (Fin 10)) (JNum (Fin 20))],
      [mk_sample (JNum (Fin 1699999900000)) (JNum (Fin 30)) (JNum (Fin 40))]]"
  let ?outc = "[\<lparr>cp_timestamp = 1699999860000, total_rx = Fin 30, total_tx = Fin 40, server_count = 1\<rparr>,
        \<lparr>cp_timestamp = 1699999980000, total_rx = Fin 10, total_tx = Fin 20, server_count = (1::nat)\<rparr>]"
  have run: "aggregateDataByTime env0 (minuteSamples 61) ''1h'' = Inr ?out"
    using valid_keys61 by (simp add: aggregateDataByTime_spec aggregateSpec_def)
  note t = series_at_most_sixty_most_recent [of "''1h''" env0 "minuteSamples 61" ?out ?two ?outc]
  note single = t [THEN conjunct2, THEN conjunct1, THEN mp, OF run]
  note combined = t [THEN conjunct2, THEN conjunct2, THEN mp, OF run_two_servers]
  have l: "length ?out = 60"
    using single [THEN conjunct1] by (simp add: length_allPoints61)
  have d: "?out = drop 1 (allPoints env0 ''1h'' (minuteSamples 61))"
    using single [THEN conjunct2, THEN conjunct1] by (simp add: length_allPoints61)
  have c: "min 60 (length (allCombinedPoints env0 ''1h'' ?two)) = 2"
    using combined [THEN conjunct1] by simp
  from run l d have "\<exists>out. aggregateDataByTime env0 (minuteSamples 61) ''1h'' = Inr out \<and>
      length out = 60 \<and> out = drop 1 (allPoints env0 ''1h'' (minuteSamples 61))"
    by blast
  with length_allPoints61 run_two_servers c show ?thesis by blast
qed

section \<open>The sum law of the combiner (C2)\<close>

lemma aggregateCombinedServerData_points:
  assumes "aggregateCombinedServerData E all tr = Inr out" "pt \<in> set out"
  shows "pt = combinedAt E tr all (cp_timestamp pt)"
    and "Some (cp_timestamp pt) \<in> set (keptKeys E tr (concat all))"
proof -
  from assms(2) set_slice_last have "pt \<in> set (allCombinedPoints E tr all)"
    unfolding aggregateCombinedServerData_Inr [OF assms(1)] by fastforce
  then obtain t where t: "pt = combinedAt E tr all t" "t \<in> set (bucketTimes (keptKeys E tr (concat all)))"
    by (auto simp: allCombinedPoints_def)
  then show "pt = combinedAt E tr all (cp_timestamp pt)" by (simp add: combinedAt_def)
  from t show "Some (cp_timestamp pt) \<in> set (keptKeys E tr (concat all))"
    by (simp add: combinedAt_def bucketTimes_def set_somes)
qed

text \<open>
  C2 (as amended). A sample is kept when its time stamp is truthy, neither rate is
  \<open>undefined\<close>, \<open>null\<close>, \<open>false\<close>, \<open>NaN\<close> or the empty string, and its normalised time is
  not below the cutoff; the value of a kept sample is \<open>Number(rate) || 0\<close>, which is \<open>0\<close>
  for a rate that is not numeric. In every bucket that \<open>aggregateCombinedServerData\<close>
  returns, \<open>total_rx\<close> is the sum, over exactly the servers with at least one kept sample
  in the bucket and in the order of their index, of each server's mean of the \<open>rx\<close>
  values of its own kept samples in the bucket; \<open>total_tx\<close> likewise; \<open>server_count\<close> is
  the number of these servers and is positive. Sum and mean are the floating-point ones
  of the code. A server whose only samples in the bucket carry non-numeric rates is
  therefore a contributing server, with mean \<open>0\<close>.
\<close>

theorem combined_totals_are_sums_of_server_means:
  "(kept E timeRange p \<longleftrightarrow>
      truthy (timestamp p) \<and> \<not> missing (rx_rate p) \<and> \<not> missing (tx_rate p) \<and>
      \<not> beforeCutoff E timeRange p) \<and>
   (missing v \<longleftrightarrow> v = JUndefined \<or> v = JNull \<or> v = JBool False \<or> v = JNum NaN \<or> v = JStr []) \<and>
   rxValue p = or0 (Number (rx_rate p)) \<and>
   txValue p = or0 (Number (tx_rate p)) \<and>
   set (inBucket E timeRange k samples) =
     {q \<in> set samples. kept E timeRange q \<and> bucketKeyOf E timeRange q = k} \<and>
   (aggregateCombinedServerData E allServerData timeRange = Inr out \<longrightarrow>
     (\<forall>pt\<in>set out.
        total_rx pt =
          js_sum (map (\<lambda>i. js_mean (map rxValue
                     (inBucket E timeRange (Some (cp_timestamp pt)) (allServerData ! i))))
                   (contributing E timeRange (Some (cp_timestamp pt)) allServerData)) \<and>
        total_tx pt =
          js_sum (map (\<lambda>i. js_mean (map txValue
                     (inBucket E timeRange (Some (cp_timestamp pt)) (allServerData ! i))))
                   (contributing E timeRange (Some (cp_timestamp pt)) allServerData)) \<and>
        server_count pt = length (contributing E timeRange (Some (cp_timestamp pt)) allServerData) \<and>
        set (contributing E timeRange (Some (cp_timestamp pt)) allServerData) =
          {i. i < length allServerData \<and>
              inBucket E timeRange (Some (cp_timestamp pt)) (allServerData ! i) \<noteq> []} \<and>
        0 < server_count pt))"
proof (intro conjI)
  show "kept E timeRange p \<longleftrightarrow>
      truthy (timestamp p) \<and> \<not> missing (rx_rate p) \<and> \<not> missing (tx_rate p) \<and>
      \<not> beforeCutoff E timeRange p"
    by (auto simp: kept_def skipped_def)
  show "missing v \<longleftrightarrow> v = JUndefined \<or> v = JNull \<or> v = JBool False \<or> v = JNum NaN \<or> v = JStr []"
    by (rule missing_iff)
  show "rxValue p = or0 (Number (rx_rate p))" by (simp add: rxValue_def)
  show "txValue p = or0 (Number (tx_rate p))" by (simp add: txValue_def)
  show "set (inBucket E timeRange k samples) =
     {q \<in> set samples. kept E timeRange q \<and> bucketKeyOf E timeRange q = k}"
    by (auto simp: inBucket_def)
next
  have "total_rx pt =
          js_sum (map (\<lambda>i. js_mean (map rxValue
                     (inBucket E timeRange (Some (cp_timestamp pt)) (allServerData ! i))))
                   (contributing E timeRange (Some (cp_timestamp pt)) allServerData)) \<and>
        total_tx pt =
          js_sum (map (\<lambda>i. js_mean (map txValue
                     (inBucket E timeRange (Some (cp_timestamp pt)) (allServerData ! i))))
                   (contributing E timeRange (Some (cp_timestamp pt)) allServerData)) \<and>
        server_count pt = length (contributing E timeRange (Some (cp_timestamp pt)) allServerData) \<and>
        set (contributing E timeRange (Some (cp_timestamp pt)) allServerData) =
          {i. i < length allServerData \<and>
              inBucket E timeRange (Some (cp_timestamp pt)) (allServerData ! i) \<noteq> []} \<and>
        0 < server_count pt"
    if a: "aggregateCombinedServerData E allServerData timeRange = Inr out" and p: "pt \<in> set out"
    for pt
  proof -
  let ?k = "Some (cp_timestamp pt)"
  note pt = aggregateCombinedServerData_points [OF a p]
  have c: "contributing E timeRange ?k allServerData \<noteq> []"
    using pt(2) by (rule contributing_nonempty)
  have rx: "total_rx pt = sumOfServerMeans rxValue E timeRange ?k allServerData"
    by (subst pt(1)) (simp add: combinedAt_def)
  have tx: "total_tx pt = sumOfServerMeans txValue E timeRange ?k allServerData"
    by (subst pt(1)) (simp add: combinedAt_def)
  have n: "server_count pt = length (contributing E timeRange ?k allServerData)"
    by (subst pt(1)) (simp add: combinedAt_def)
  have s: "set (contributing E timeRange ?k allServerData) =
      {i. i < length allServerData \<and> inBucket E timeRange ?k (allServerData ! i) \<noteq> []}"
    by (auto simp: contributing_def)
  from rx tx n s c show "total_rx pt =
          js_sum (map (\<lambda>i. js_mean (map rxValue (inBucket E timeRange ?k (allServerData ! i))))
                   (contributing E timeRange ?k allServerData)) \<and>
        total_tx pt =
          js_sum (map (\<lambda>i. js_mean (map txValue (inBucket E timeRange ?k (allServerData ! i))))
                   (contributing E timeRange ?k allServerData)) \<and>
        server_count pt = length (contributing E timeRange ?k allServerData) \<and>
        set (contributing E timeRange ?k allServerData) =
          {i. i < length allServerData \<and> inBucket E timeRange ?k (allServerData ! i) \<noteq> []} \<and>
        0 < server_count pt"
    by (simp add: sumOfServerMeans_def)
  qed
  then show "aggregateCombinedServerData E allServerData timeRange = Inr out \<longrightarrow>
     (\<forall>pt\<in>set out.
        total_rx pt =
          js_sum (map (\<lambda>i. js_mean (map rxValue
                     (inBucket E timeRange (Some (cp_timestamp pt)) (allServerData ! i))))
                   (contributing E timeRange (Some (cp_timestamp pt)) allServerData)) \<and>
        total_tx pt =
          js_sum (map (\<lambda>i. js_mean (map txValue
                     (inBucket E timeRange (Some (cp_timestamp pt)) (allServerData ! i))))
                   (contributing E timeRange (Some (cp_timestamp pt)) allServerData)) \<and>
        server_count pt = length (contributing E timeRange (Some (cp_timestamp pt)) allServerData) \<and>
        set (contributing E timeRange (Some (cp_timestamp pt)) allServerData) =
          {i. i < length allServerData \<and>
              inBucket E timeRange (Some (cp_timestamp pt)) (allServerData ! i) \<noteq> []} \<and>
        0 < server_count pt)"
    by blast
qed

text \<open>
  Server 0 reports 5 once, server 1 is empty, server 2 reports 7 and 9 in the same
  minute: the total is \<open>5 + (7 + 9) / 2 = 13\<close> over two servers, neither the pooled sum 21
  nor the pooled mean 7.
\<close>

lemma run_three_servers:
  "aggregateCombinedServerData env0
     [[mk_sample (JNum (Fin 1699999990000)) (JNum (Fin 5)) (JNum (Fin 1))],
      [],
      [mk_sample (JNum (Fin 1699999990000)) (JNum (Fin 7)) (JNum (Fin 2)),
       mk_sample (JNum (Fin 1699999991000)) (JNum (Fin 9)) (JNum (Fin 4))]] ''1h'' =
   Inr [\<lparr>cp_timestamp = 1699999980000, total_rx = Fin 13, total_tx = Fin 4, server_count = 2\<rparr>]"
  by (simp add: agg_eval time_eval js_eval fl_eval)


lemma contributing_three_servers:
  "contributing env0 ''1h'' (Some 1699999980000)
     [[mk_sample (JNum (Fin 1699999990000)) (JNum (Fin 5)) (JNum (Fin 1))],
      [],
      [mk_sample (JNum (Fin 1699999990000)) (JNum (Fin 7)) (JNum (Fin 2)),
       mk_sample (JNum (Fin 1699999991000)) (JNum (Fin 9)) (JNum (Fin 4))]] = [0, 2]"
  by (simp add: contributing_def upt_rec spec_eval mk_sample_def skipped_def missing_def
      time_eval js_eval)

theorem combined_totals_are_sums_of_server_means_witness:
  "aggregateCombinedServerData env0
     [[mk_sample (JNum (Fin 1699999990000)) (JNum (Fin 5)) (JNum (Fin 1))],
      [],
      [mk_sample (JNum (Fin 1699999990000)) (JNum (Fin 7)) (JNum (Fin 2)),
       mk_sample (JNum (Fin 1699999991000)) (JNum (Fin 9)) (JNum (Fin 4))]] ''1h'' =
   Inr [\<lparr>cp_timestamp = 1699999980000, total_rx = Fin 13, total_tx = Fin 4, server_count = 2\<rparr>] \<and>
   js_sum (map (\<lambda>i. js_mean (map rxValue (inBucket env0 ''1h'' (Some 1699999980000)
       ([[mk_sample (JNum (Fin 1699999990000)) (JNum (Fin 5)) (JNum (Fin 1))],
         [],
         [mk_sample (JNum (Fin 1699999990000)) (JNum (Fin 7)) (JNum (Fin 2)),
          mk_sample (JNum (Fin 1699999991000)) (JNum (Fin 9)) (JNum (Fin 4))]] ! i))))
     [0, 2]) = Fin 13 \<and>
   js_sum [Fin 5, Fin 7, Fin 9] = Fin 21 \<and>
   js_mean [Fin 5, Fin 7, Fin 9] = Fin 7"
proof -
  let ?three = "[[mk_sample (JNum (Fin 1699999990000)) (JNum (Fin 5)) (JNum (Fin 1))],
      [],
      [mk_sample (JNum (Fin 1699999990000)) (JNum (Fin 7)) (JNum (Fin 2)),
       mk_sample (JNum (Fin 1699999991000)) (JNum (Fin 9)) (JNum (Fin 4))]]"
  let ?pt = "\<lparr>cp_timestamp = 1699999980000, total_rx = Fin 13, total_tx = Fin 4,
               server_count = (2::nat)\<rparr>"
  note t = combined_totals_are_sums_of_server_means
      [where E = env0 and timeRange = "''1h''" and allServerData = ?three and out = "[?pt]",
       THEN conjunct2, THEN conjunct2, THEN conjunct2, THEN conjunct2, THEN conjunct2,
       THEN mp, OF run_three_servers, THEN bspec, of ?pt]
  have "total_rx ?pt =
      js_sum (map (\<lambda>i. js_mean (map rxValue (inBucket env0 ''1h'' (Some 1699999980000) (?three ! i))))
        (contributing env0 ''1h'' (Some 1699999980000) ?three))"
    using t by simp
  then have rx: "js_sum (map (\<lambda>i. js_mean (map rxValue
        (inBucket env0 ''1h'' (Some 1699999980000) (?three ! i)))) [0, 2]) = Fin 13"
    by (simp only: contributing_three_servers) simp
  have pooled: "js_sum [Fin 5, Fin 7, Fin 9] = Fin 21" "js_mean [Fin 5, Fin 7, Fin 9] = Fin 7"
    by (simp_all add: js_eval fl_eval)
  from run_three_servers rx pooled show ?thesis by blast
qed

text \<open>
  The only sample of server 1 carries the strings \<open>abc\<close> and \<open>n/a\<close> as rates: it passes the
  guard, server 1 is counted with mean \<open>0\<close>, and \<open>server_count\<close> is 2. In the second run one
  server reports \<open>10\<close> and \<open>abc\<close> in the same bucket: its mean is \<open>(10 + 0) / 2 = 5\<close>, not 10.
\<close>

theorem combined_counts_nonnumeric_rates_counterexample:
  "aggregateCombinedServerData env0
     [[mk_sample (JNum (Fin 1699999990000)) (JNum (Fin 5)) (JNum (Fin 1))],
      [mk_sample (JNum (Fin 1699999990000)) (JStr ''abc'') (JStr ''n/a'')]] ''1h'' =
   Inr [\<lparr>cp_timestamp = 1699999980000, total_rx = Fin 5, total_tx = Fin 1, server_count = 2\<rparr>] \<and>
   aggregateCombinedServerData env0
     [[mk_sample (JNum (Fin 1699999990000)) (JNum (Fin 10)) (JNum (Fin 1)),
       mk_sample (JNum (Fin 1699999990000)) (JStr ''abc'') (JNum (Fin 1))]] ''1h'' =
   Inr [\<lparr>cp_timestamp = 1699999980000, total_rx = Fin 5, total_tx = Fin 1, server_count = 1\<rparr>]"
  by (simp add: agg_eval time_eval js_eval fl_eval string_eval)

section \<open>Reordering the input (C9)\<close>

lemma mset_inBucket:
  "mset xs = mset ys \<Longrightarrow> mset (inBucket E tr k xs) = mset (inBucket E tr k ys)"
  by (simp add: inBucket_def)

lemma set_keptKeys_perm:
  assumes "mset xs = mset ys"
  shows "set (keptKeys E tr xs) = set (keptKeys E tr ys)"
proof -
  have "mset (keptKeys E tr xs) = mset (keptKeys E tr ys)"
    using assms by (simp add: keptKeys_def)
  then show ?thesis by (rule mset_eq_setD)
qed

lemma bucketTimes_set:
  assumes "set keys = set keys'"
  shows "bucketTimes keys = bucketTimes keys'"
  unfolding bucketTimes_def
  by (rule sorted_distinct_set_unique) (simp_all add: set_somes assms)

lemma list_all2_slice_last_map:
  assumes "\<And>t. t \<in> set ts \<Longrightarrow> R (f t) (g t)"
  shows "list_all2 R (slice_last n (map f ts)) (slice_last n (map g ts))"
proof -
  have "list_all2 R (map f (drop (length ts - n) ts)) (map g (drop (length ts - n) ts))"
    using assms by (auto simp: list_all2_map1 list_all2_map2 list_all2_same dest: in_set_dropD)
  then show ?thesis by (simp add: slice_last_def drop_map)
qed

lemma aggregateDataByTime_perm:
  assumes "mset xs = mset ys"
  shows "rel_sum (=) (list_all2 (sameBucketPoint E tr xs ys))
           (aggregateDataByTime E xs tr) (aggregateDataByTime E ys tr)"
proof -
  have k: "set (keptKeys E tr xs) = set (keptKeys E tr ys)"
    using assms by (rule set_keptKeys_perm)
  then have t: "bucketTimes (keptKeys E tr xs) = bucketTimes (keptKeys E tr ys)"
    by (rule bucketTimes_set)
  have "sameBucketPoint E tr xs ys (pointAt E tr xs t) (pointAt E tr ys t)" for t
    using mset_inBucket [OF assms, of E tr "Some t"]
    by (simp add: sameBucketPoint_def pointAt_def) (metis size_mset)
  then have "list_all2 (sameBucketPoint E tr xs ys)
      (slice_last n (allPoints E tr xs)) (slice_last n (allPoints E tr ys))" for n
    unfolding allPoints_def t by (intro list_all2_slice_last_map)
  then show ?thesis
    using k by (simp add: aggregateDataByTime_spec aggregateSpec_def)
qed

lemma mset_concat_perm:
  "list_all2 (\<lambda>xs ys. mset xs = mset ys) xss yss \<Longrightarrow> mset (concat xss) = mset (concat yss)"
  by (induction rule: list_all2_induct) simp_all

lemma contributing_perm:
  assumes "list_all2 (\<lambda>xs ys. mset xs = mset ys) xss yss"
  shows "contributing E tr k xss = contributing E tr k yss"
proof -
  have len: "length xss = length yss" using assms by (rule list_all2_lengthD)
  have "inBucket E tr k (xss ! i) \<noteq> [] \<longleftrightarrow> inBucket E tr k (yss ! i) \<noteq> []"
    if "i < length xss" for i
  proof -
    have "mset (xss ! i) = mset (yss ! i)" using assms that by (rule list_all2_nthD)
    then have "mset (inBucket E tr k (xss ! i)) = mset (inBucket E tr k (yss ! i))"
      by (rule mset_inBucket)
    then show ?thesis by (metis mset_zero_iff)
  qed
  then show ?thesis
    unfolding contributing_def len [symmetric]
    by (intro filter_cong) simp_all
qed

lemma aggregateCombinedServerData_perm:
  assumes "list_all2 (\<lambda>xs ys. mset xs = mset ys) xss yss"
  shows "rel_sum (=) (list_all2 (sameCombinedPoint E tr xss yss))
           (aggregateCombinedServerData E xss tr) (aggregateCombinedServerData E yss tr)"
proof -
  have k: "set (keptKeys E tr (concat xss)) = set (keptKeys E tr (concat yss))"
    using mset_concat_perm [OF assms] by (rule set_keptKeys_perm)
  then have t: "bucketTimes (keptKeys E tr (concat xss)) = bucketTimes (keptKeys E tr (concat yss))"
    by (rule bucketTimes_set)
  have "sameCombinedPoint E tr xss yss (combinedAt E tr xss t) (combinedAt E tr yss t)" for t
  proof -
    have c: "contributing E tr (Some t) xss = contributing E tr (Some t) yss"
      using assms by (rule contributing_perm)
    have "mset (inBucket E tr (Some t) (xss ! i)) = mset (inBucket E tr (Some t) (yss ! i))"
      if "i \<in> set (contributing E tr (Some t) xss)" for i
    proof -
      from that have "i < length xss" by (simp add: contributing_def)
      with assms have "mset (xss ! i) = mset (yss ! i)" by (rule list_all2_nthD)
      then show ?thesis by (rule mset_inBucket)
    qed
    then show ?thesis
      using c by (simp add: sameCombinedPoint_def combinedAt_def list_all_iff)
  qed
  then have "list_all2 (sameCombinedPoint E tr xss yss)
      (slice_last n (allCombinedPoints E tr xss)) (slice_last n (allCombinedPoints E tr yss))" for n
    unfolding allCombinedPoints_def t by (intro list_all2_slice_last_map)
  then show ?thesis
    using k by (simp add: aggregateCombinedServerData_spec combinedSpec_def)
qed


text \<open>
  C9 (as amended). Reordering the input of \<open>aggregateDataByTime\<close>, or the samples inside
  each server's array for \<open>aggregateCombinedServerData\<close>, leaves an exception an
  exception and otherwise yields a series of the same length with, point by point, the
  same time stamp, the same count (the same contributing servers), and means taken over
  the same samples as a multiset. The means are computed by floating-point summation in
  input order, so their last digits can differ.
\<close>

theorem reordering_keeps_buckets_and_sample_multisets:
  "(mset xs = mset ys \<longrightarrow>
      rel_sum (=) (list_all2 (sameBucketPoint E timeRange xs ys))
        (aggregateDataByTime E xs timeRange) (aggregateDataByTime E ys timeRange)) \<and>
   (list_all2 (\<lambda>xs ys. mset xs = mset ys) xss yss \<longrightarrow>
      rel_sum (=) (list_all2 (sameCombinedPoint E timeRange xss yss))
        (aggregateCombinedServerData E xss timeRange)
        (aggregateCombinedServerData E yss timeRange))"
  using aggregateDataByTime_perm [of xs ys E timeRange]
    aggregateCombinedServerData_perm [of xss yss E timeRange]
  by blast

theorem reordering_changes_mean_counterexample:
  "mset [mk_sample (JNum (Fin 1699999990000)) (JStr ''0.1'') (JNum (Fin 1)),
         mk_sample (JNum (Fin 1699999990000)) (JStr ''0.2'') (JNum (Fin 1)),
         mk_sample (JNum (Fin 1699999990000)) (JStr ''0.3'') (JNum (Fin 1))] =
   mset [mk_sample (JNum (Fin 1699999990000)) (JStr ''0.3'') (JNum (Fin 1)),
         mk_sample (JNum (Fin 1699999990000)) (JStr ''0.2'') (JNum (Fin 1)),
         mk_sample (JNum (Fin 1699999990000)) (JStr ''0.1'') (JNum (Fin 1))] \<and>
   aggregateDataByTime env0
     [mk_sample (JNum (Fin 1699999990000)) (JStr ''0.1'') (JNum (Fin 1)),
      mk_sample (JNum (Fin 1699999990000)) (JStr ''0.2'') (JNum (Fin 1)),
      mk_sample (JNum (Fin 1699999990000)) (JStr ''0.3'') (JNum (Fin 1))] ''1h'' \<noteq>
   aggregateDataByTime env0
     [mk_sample (JNum (Fin 1699999990000)) (JStr ''0.3'') (JNum (Fin 1)),
      mk_sample (JNum (Fin 1699999990000)) (JStr ''0.2'') (JNum (Fin 1)),
      mk_sample (JNum (Fin 1699999990000)) (JStr ''0.1'') (JNum (Fin 1))] ''1h''"
  by (simp add: agg_eval time_eval js_eval fl_eval string_eval)


theorem reordering_keeps_buckets_and_sample_multisets_witness:
  "mset [mk_sample (JNum (Fin 1699999990000)) (JNum (Fin 10)) (JNum (Fin 20)),
         mk_sample (JNum (Fin 1699999900000)) (JNum (Fin 30)) (JNum (Fin 40))] =
   mset [mk_sample (JNum (Fin 1699999900000)) (JNum (Fin 30)) (JNum (Fin 40)),
         mk_sample (JNum (Fin 1699999990000)) (JNum (Fin 10)) (JNum (Fin 20))] \<and>
   rel_sum (=)
     (list_all2 (sameBucketPoint env0 ''1h''
        [mk_sample (JNum (Fin 1699999990000)) (JNum (Fin 10)) (JNum (Fin 20)),
         mk_sample (JNum (Fin 1699999900000)) (JNum (Fin 30)) (JNum (Fin 40))]
        [mk_sample (JNum (Fin 1699999900000)) (JNum (Fin 30)) (JNum (Fin 40)),
         mk_sample (JNum (Fin 1699999990000)) (JNum (Fin 10)) (JNum (Fin 20))]))
     (aggregateDataByTime env0
        [mk_sample (JNum (Fin 1699999990000)) (JNum (Fin 10)) (JNum (Fin 20)),
         mk_sample (JNum (Fin 1699999900000)) (JNum (Fin 30)) (JNum (Fin 40))] ''1h'')
     (aggregateDataByTime env0
        [mk_sample (JNum (Fin 1699999900000)) (JNum (Fin 30)) (JNum (Fin 40)),
         mk_sample (JNum (Fin 1699999990000)) (JNum (Fin 10)) (JNum (Fin 20))] ''1h'') \<and>
   rel_sum (=)
     (list_all2 (sameCombinedPoint env0 ''1h''
        [[mk_sample (JNum (Fin 1699999990000)) (JNum (Fin 10)) (JNum (Fin 20)),
          mk_sample (JNum (Fin 1699999900000)) (JNum (Fin 30)) (JNum (Fin 40))]]
        [[mk_sample (JNum (Fin 1699999900000)) (JNum (Fin 30)) (JNum (Fin 40)),
          mk_sample (JNum (Fin 1699999990000)) (JNum (Fin 10)) (JNum (Fin 20))]]))
     (aggregateCombinedServerData env0
        [[mk_sample (JNum (Fin 1699999990000)) (JNum (Fin 10)) (JNum (Fin 20)),
          mk_sample (JNum (Fin 1699999900000)) (JNum (Fin 30)) (JNum (Fin 40))]] ''1h'')
     (aggregateCombinedServerData env0
        [[mk_sample (JNum (Fin 1699999900000)) (JNum (Fin 30)) (JNum (Fin 40)),
          mk_sample (JNum (Fin 1699999990000)) (JNum (Fin 10)) (JNum (Fin 20))]] ''1h'')"
proof -
  let ?a = "mk_sample (JNum (Fin 1699999990000)) (JNum (Fin 10)) (JNum (Fin 20))"
  let ?b = "mk_sample (JNum (Fin 1699999900000)) (JNum (Fin 30)) (JNum (Fin 40))"
  have m: "mset [?a, ?b] = mset [?b, ?a]" by (simp add: add_mset_commute)
  then have l: "list_all2 (\<lambda>xs ys. mset xs = mset ys) [[?a, ?b]] [[?b, ?a]]" by simp
  note t = reordering_keeps_buckets_and_sample_multisets
    [of "[?a, ?b]" "[?b, ?a]" env0 "''1h''" "[[?a, ?b]]" "[[?b, ?a]]"]
  from t [THEN conjunct1, THEN mp, OF m] t [THEN conjunct2, THEN mp, OF l] m
  show ?thesis by blast
qed

section \<open>The bucket key in closed form (C7)\<close>
















lemma floor_le: "0 < (W::int) \<Longrightarrow> x div W * W \<le> x"
  using pos_mod_sign [of W x] minus_mod_eq_div_mult [of x W] by linarith

lemma floor_gt: "0 < (W::int) \<Longrightarrow> x < x div W * W + W"
  using pos_mod_bound [of W x] minus_mod_eq_div_mult [of x W] by linarith

























section \<open>aggregateRealtimeData computes its specification\<close>

lemma key_shift: "(s + i * 30 * 1000) div 30000 * 30000 = s div 30000 * 30000 + 30000 * (i::int)"
proof -
  have "(s + i * 30000) div 30000 = s div 30000 + i" by simp
  then show ?thesis by (simp add: algebra_simps)
qed

lemma realtimeKeys_valid:
  assumes "realtimeStart E = Some s"
  shows "realtimeKeys E = map (\<lambda>i. Some (s div 30000 * 30000 + 30000 * int i)) [0 ..< 30]"
  unfolding realtimeKeys_def assms
  by (simp add: key30_def addSeconds_def key_shift comp_def del: upt.simps)

lemma distinct_realtimeKeys:
  assumes "realtimeStart E = Some s"
  shows "distinct (realtimeKeys E)"
  unfolding realtimeKeys_valid [OF assms]
  by (simp add: distinct_map inj_on_def del: upt.simps)

lemma sorted_realtimeKeys:
  assumes "realtimeStart E = Some s"
  shows "sorted (realtimeKeys E)"
  unfolding realtimeKeys_valid [OF assms]
  by (simp add: sorted_wrt_iff_nth_less del: upt.simps)

lemma createBucket_alt:
  "createBucket st =
     (\<lambda>m i. AList.update (key30 (map_option (\<lambda>t. addSeconds t (i * 30)) st))
       (emptyBucket (key30 (map_option (\<lambda>t. addSeconds t (i * 30)) st))) m)"
  by (intro ext) (simp add: createBucket_def map_set_def emptyBucket_def Let_def)

lemma foldl_update_fresh:
  assumes "distinct (map K xs)" "K ` set xs \<inter> fst ` set m = {}"
  shows "foldl (\<lambda>m i. AList.update (K i) (emptyBucket (K i)) m) m xs =
           m @ map (\<lambda>i. (K i, emptyBucket (K i))) xs"
  using assms
proof (induction xs arbitrary: m)
  case Nil
  then show ?case by simp
next
  case (Cons x xs)
  have f: "K x \<notin> fst ` set m" using Cons.prems(2) by auto
  have "K ` set xs \<inter> fst ` set (m @ [(K x, emptyBucket (K x))]) = {}"
    using Cons.prems by auto
  with Cons.IH [of "m @ [(K x, emptyBucket (K x))]"] Cons.prems(1)
  show ?case by (simp add: update_fresh [OF f])
qed

lemma created_buckets:
  assumes "realtimeStart E = Some s"
  shows "foldl (createBucket (realtimeStart E)) [] (map int [0 ..< 30]) =
           map (\<lambda>k. (k, emptyBucket k)) (realtimeKeys E)"
proof -
  let ?K = "\<lambda>i. key30 (map_option (\<lambda>t. addSeconds t (i * 30)) (realtimeStart E))"
  have k: "map ?K (map int [0 ..< 30]) = realtimeKeys E"
    by (simp add: realtimeKeys_def)
  have "foldl (createBucket (realtimeStart E)) [] (map int [0 ..< 30]) =
        foldl (\<lambda>m i. AList.update (?K i) (emptyBucket (?K i)) m) [] (map int [0 ..< 30])"
    by (simp only: createBucket_alt)
  also have "\<dots> = [] @ map (\<lambda>i. (?K i, emptyBucket (?K i))) (map int [0 ..< 30])"
    by (rule foldl_update_fresh) (simp_all only: k distinct_realtimeKeys [OF assms], simp)
  also have "\<dots> = map (\<lambda>k. (k, emptyBucket k)) (map ?K (map int [0 ..< 30]))"
    by (simp add: comp_def del: upt.simps)
  finally show ?thesis by (simp only: k)
qed

lemma map_entry_keyed:
  "distinct ks \<Longrightarrow>
   AList.map_entry k g (map (\<lambda>k. (k, f k)) ks) =
     map (\<lambda>k'. (k', if k' = k then g (f k') else f k')) ks"
  by (induction ks) auto

lemma map_of_keyed: "map_of (map (\<lambda>k. (k, f k)) ks) k = (if k \<in> set ks then Some (f k) else None)"
  by (induction ks) auto

lemma addRealtimePoint_keyed:
  assumes "distinct ks"
  shows "addRealtimePoint E (realtimeStart E) (map (\<lambda>k. (k, f k)) ks) p =
     map (\<lambda>k. (k, if realtimeKept E p \<and> realtimeKeyOf E p = k then pushValues p (f k) else f k)) ks"
proof (cases "realtimeKept E p")
  case False
  then show ?thesis
    by (auto simp add: addRealtimePoint_def realtimeKept_def Let_def)
next
  case True
  then have t: "truthy (timestamp p)" by (simp add: realtimeKept_def skipped_def)
  then obtain d where d: "normalizeTimestamp E (timestamp p) = JDate d"
    using normalizeTimestamp_truthy by blast
  have key: "realtimeKeyOf E p = key30 d" by (simp add: realtimeKeyOf_def d)
  show ?thesis
  proof (cases "key30 d \<in> set ks")
    case True
    with \<open>realtimeKept E p\<close> show ?thesis
      by (simp add: addRealtimePoint_def realtimeKept_def d key map_of_keyed
          map_entry_keyed [OF assms] Let_def eq_commute)
  next
    case False
    then have "\<And>k. k \<in> set ks \<Longrightarrow> key30 d \<noteq> k" by auto
    with False \<open>realtimeKept E p\<close> show ?thesis
      by (simp add: addRealtimePoint_def realtimeKept_def d key map_of_keyed Let_def)
  qed
qed

lemma foldl_addRealtimePoint:
  assumes "distinct ks"
  shows "foldl (addRealtimePoint E (realtimeStart E)) (map (\<lambda>k. (k, f k)) ks) xs =
     map (\<lambda>k. (k, foldl (\<lambda>b p. pushValues p b) (f k) (realtimeAssigned E k xs))) ks"
proof (induction xs arbitrary: f)
  case Nil
  then show ?case by (simp add: realtimeAssigned_def)
next
  case (Cons p xs)
  show ?case
    by (simp add: addRealtimePoint_keyed [OF assms] Cons.IH realtimeAssigned_def)
qed

lemma realtimePoint_pushed:
  "realtimePoint (foldl (\<lambda>b p. pushValues p b) (emptyBucket k) (realtimeAssigned E k raw)) =
     realtimePointAt E raw k"
  by (simp add: foldl_pushValues realtimePoint_def realtimePointAt_def Let_def)

lemma aggregateRealtimeData_spec:
  assumes "rawData \<noteq> []" "realtimeStart E = Some s"
  shows "aggregateRealtimeData E rawData = map (realtimePointAt E rawData) (realtimeKeys E)"
proof -
  have st: "map_option (\<lambda>t. subMinutes t 15) (toDate (normalizeTimestamp E (JDate (Some (clock E))))) =
        realtimeStart E"
    by (simp add: realtimeStart_def)
  have b: "foldl (addRealtimePoint E (realtimeStart E))
          (foldl (createBucket (realtimeStart E)) [] (map int [0 ..< 30])) rawData =
        map (\<lambda>k. (k, foldl (\<lambda>b p. pushValues p b) (emptyBucket k) (realtimeAssigned E k rawData)))
          (realtimeKeys E)"
    by (simp only: created_buckets [OF assms(2)]
        foldl_addRealtimePoint [OF distinct_realtimeKeys [OF assms(2)]])
  have "map r_timestamp (map (realtimePointAt E rawData) (realtimeKeys E)) = realtimeKeys E"
    by (simp add: realtimePointAt_def comp_def Let_def)
  then have "sorted (map r_timestamp (map (realtimePointAt E rawData) (realtimeKeys E)))"
    using sorted_realtimeKeys [OF assms(2)] by simp
  then have s: "sort_key r_timestamp (map (realtimePointAt E rawData) (realtimeKeys E)) =
      map (realtimePointAt E rawData) (realtimeKeys E)"
    by (rule sort_key_id_if_sorted)
  have "aggregateRealtimeData E rawData =
      sort_key r_timestamp (map realtimePoint (map_values
        (foldl (addRealtimePoint E (realtimeStart E))
          (foldl (createBucket (realtimeStart E)) [] (map int [0 ..< 30])) rawData)))"
    using assms(1) by (simp add: aggregateRealtimeData_def st Let_def)
  also have "\<dots> = sort_key r_timestamp (map (realtimePointAt E rawData) (realtimeKeys E))"
    unfolding b by (simp add: map_values_def comp_def realtimePoint_pushed)
  finally show ?thesis by (simp only: s)
qed

lemma realtimeStart_valid:
  "normalizeTimestamp E (JDate (Some (clock E))) = JDate (Some now) \<Longrightarrow>
     realtimeStart E = Some (now - 900000)"
  by (simp add: realtimeStart_def subMinutes_def addMinutes_def)

lemma aggregateRealtimeData_nth:
  assumes "rawData \<noteq> []" "realtimeStart E = Some s" "i < 30"
  shows "aggregateRealtimeData E rawData ! i =
           realtimePointAt E rawData (Some (s div 30000 * 30000 + 30000 * int i))"
  using assms(3)
  by (simp add: aggregateRealtimeData_spec [OF assms(1,2)] realtimeKeys_valid [OF assms(2)]
      del: upt.simps)

lemma length_aggregateRealtimeData:
  assumes "rawData \<noteq> []" "realtimeStart E = Some s"
  shows "length (aggregateRealtimeData E rawData) = 30"
  by (simp add: aggregateRealtimeData_spec [OF assms] realtimeKeys_valid [OF assms(2)]
      del: upt.simps)

lemma realtimePointAt_empty:
  "realtimeAssigned E k rawData = [] \<Longrightarrow>
     realtimePointAt E rawData k = \<lparr>r_timestamp = k, total_throughput = Fin 0, r_data_points = 0\<rparr>"
  by (simp add: realtimePointAt_def mean_or_0_def fl_def)

lemma key_among_created:
  assumes st: "realtimeStart E = Some s" and le: "s \<le> t"
  shows "Some (t div 30000 * 30000) \<in> set (realtimeKeys E) \<longleftrightarrow> t < s div 30000 * 30000 + 900000"
proof -
  define q where "q = s div 30000"
  define r where "r = t div 30000"
  have t: "r * 30000 \<le> t" "t < r * 30000 + 30000"
    unfolding r_def by (rule floor_le, simp, rule floor_gt, simp)
  have qr: "q \<le> r"
    unfolding q_def r_def using le by (rule zdiv_mono1) simp
  have keys: "set (realtimeKeys E) = (\<lambda>i. Some (q * 30000 + 30000 * int i)) ` {0 ..< 30}"
    unfolding realtimeKeys_valid [OF st] q_def by (simp del: upt.simps)
  show ?thesis
  proof
    assume "Some (t div 30000 * 30000) \<in> set (realtimeKeys E)"
    then obtain i where i: "i < (30::nat)" "r * 30000 = q * 30000 + 30000 * int i"
      unfolding keys r_def by auto
    with t have "t < q * 30000 + 900000" by linarith
    then show "t < s div 30000 * 30000 + 900000" by (simp add: q_def)
  next
    assume "t < s div 30000 * 30000 + 900000"
    then have "t < q * 30000 + 900000" by (simp add: q_def)
    with t have "r < q + 30" by linarith
    with qr have j: "nat (r - q) < 30" "r * 30000 = q * 30000 + 30000 * int (nat (r - q))"
      by simp_all
    then have "Some (r * 30000) \<in> (\<lambda>i. Some (q * 30000 + 30000 * int i)) ` {0 ..< 30}"
      by (intro image_eqI [where x = "nat (r - q)"]) simp_all
    then show "Some (t div 30000 * 30000) \<in> set (realtimeKeys E)"
      by (simp only: keys r_def)
  qed
qed

lemma realtimeAssigned_drop:
  assumes "\<not> (realtimeKept E p \<and> realtimeKeyOf E p = k)"
  shows "realtimeAssigned E k (xs @ p # ys) = realtimeAssigned E k (xs @ ys)"
  using assms by (simp add: realtimeAssigned_def)

lemma realtimePointAt_drop:
  assumes "realtimeKeyOf E p \<noteq> k"
  shows "realtimePointAt E (xs @ p # ys) k = realtimePointAt E (xs @ ys) k"
  using assms by (simp add: realtimePointAt_def realtimeAssigned_drop)

lemma run_realtime_start: "realtimeStart env0 = Some 1699999100000"
  by (simp add: realtimeStart_def time_eval)

text \<open>
  C4 (as amended). For the empty array the result is empty. For a non-empty array and a
  valid normalised clock, \<open>aggregateRealtimeData\<close> returns 30 points whose time stamps are
  30 seconds apart and start at the start time (the normalised clock minus 15 minutes)
  floored to 30 seconds. The point of a bucket carries the number of the samples
  assigned to it (those that pass the guard, are not before the start time and have the
  key of the bucket) and the sum of the means of their \<open>rx\<close> and \<open>tx\<close> values; a bucket
  without samples appears with the count \<open>0\<close> and the value \<open>0\<close>.
\<close>

theorem realtime_returns_thirty_buckets:
  "aggregateRealtimeData E [] = [] \<and>
   (normalizeTimestamp E (JDate (Some (clock E))) = JDate (Some now) \<longrightarrow>
      realtimeStart E = Some (now - 900000)) \<and>
   set (realtimeAssigned E k rawData) =
     {p \<in> set rawData. \<not> skipped p \<and>
        \<not> js_lt (normalizeTimestamp E (timestamp p)) (realtimeStart E) \<and>
        key30 (toDate (normalizeTimestamp E (timestamp p))) = k} \<and>
   (rawData \<noteq> [] \<and> realtimeStart E = Some s \<longrightarrow>
      length (aggregateRealtimeData E rawData) = 30 \<and>
      (\<forall>i<30.
         r_timestamp (aggregateRealtimeData E rawData ! i) =
           Some (s div 30000 * 30000 + 30000 * int i) \<and>
         r_data_points (aggregateRealtimeData E rawData ! i) =
           length (realtimeAssigned E (Some (s div 30000 * 30000 + 30000 * int i)) rawData) \<and>
         total_throughput (aggregateRealtimeData E rawData ! i) =
           js_add
             (mean_or_0 (map rxValue
                (realtimeAssigned E (Some (s div 30000 * 30000 + 30000 * int i)) rawData)))
             (mean_or_0 (map txValue
                (realtimeAssigned E (Some (s div 30000 * 30000 + 30000 * int i)) rawData))) \<and>
         (realtimeAssigned E (Some (s div 30000 * 30000 + 30000 * int i)) rawData = [] \<longrightarrow>
            r_data_points (aggregateRealtimeData E rawData ! i) = 0 \<and>
            total_throughput (aggregateRealtimeData E rawData ! i) = Fin 0)))"
proof (intro conjI impI allI)
  show "aggregateRealtimeData E [] = []"
    by (simp add: aggregateRealtimeData_def)
  show "realtimeStart E = Some (now - 900000)"
    if "normalizeTimestamp E (JDate (Some (clock E))) = JDate (Some now)"
    using that by (rule realtimeStart_valid)
  show "set (realtimeAssigned E k rawData) =
     {p \<in> set rawData. \<not> skipped p \<and>
        \<not> js_lt (normalizeTimestamp E (timestamp p)) (realtimeStart E) \<and>
        key30 (toDate (normalizeTimestamp E (timestamp p))) = k}"
    by (auto simp: realtimeAssigned_def realtimeKept_def realtimeKeyOf_def)
next
  assume a: "rawData \<noteq> [] \<and> realtimeStart E = Some s"
  then show "length (aggregateRealtimeData E rawData) = 30"
    by (simp add: length_aggregateRealtimeData)
next
  fix i :: nat
  assume a: "rawData \<noteq> [] \<and> realtimeStart E = Some s" and i: "i < 30"
  let ?k = "Some (s div 30000 * 30000 + 30000 * int i)"
  have n: "aggregateRealtimeData E rawData ! i = realtimePointAt E rawData ?k"
    using a i by (simp add: aggregateRealtimeData_nth)
  show "r_timestamp (aggregateRealtimeData E rawData ! i) = ?k"
    by (simp add: n realtimePointAt_def Let_def)
  show "r_data_points (aggregateRealtimeData E rawData ! i) = length (realtimeAssigned E ?k rawData)"
    by (simp add: n realtimePointAt_def Let_def)
  show "total_throughput (aggregateRealtimeData E rawData ! i) =
           js_add (mean_or_0 (map rxValue (realtimeAssigned E ?k rawData)))
             (mean_or_0 (map txValue (realtimeAssigned E ?k rawData)))"
    by (simp add: n realtimePointAt_def Let_def)
  show "r_data_points (aggregateRealtimeData E rawData ! i) = 0"
    if "realtimeAssigned E ?k rawData = []"
    by (simp add: n realtimePointAt_empty [OF that])
  show "total_throughput (aggregateRealtimeData E rawData ! i) = Fin 0"
    if "realtimeAssigned E ?k rawData = []"
    by (simp add: n realtimePointAt_empty [OF that])
qed

text \<open>
  With the clock of \<open>env0\<close> the start time is 1 699 999 100 000 ms and the first key
  1 699 999 080 000 ms. One sample at 1 699 999 500 000 ms with the rates 10 and 20 falls
  into bucket 14; bucket 0 is empty.
\<close>

theorem realtime_returns_thirty_buckets_witness:
  "[mk_sample (JNum (Fin 1699999500000)) (JNum (Fin 10)) (JNum (Fin 20))] \<noteq> [] \<and>
   realtimeStart env0 = Some 1699999100000 \<and>
   length (aggregateRealtimeData env0
     [mk_sample (JNum (Fin 1699999500000)) (JNum (Fin 10)) (JNum (Fin 20))]) = 30 \<and>
   aggregateRealtimeData env0
     [mk_sample (JNum (Fin 1699999500000)) (JNum (Fin 10)) (JNum (Fin 20))] ! 0 =
     \<lparr>r_timestamp = Some 1699999080000, total_throughput = Fin 0, r_data_points = 0\<rparr> \<and>
   aggregateRealtimeData env0
     [mk_sample (JNum (Fin 1699999500000)) (JNum (Fin 10)) (JNum (Fin 20))] ! 14 =
     \<lparr>r_timestamp = Some 1699999500000, total_throughput = Fin 30, r_data_points = 1\<rparr>"
proof -
  let ?q = "mk_sample (JNum (Fin 1699999500000)) (JNum (Fin 10)) (JNum (Fin 20))"
  let ?out = "aggregateRealtimeData env0 [?q]"
  have e: "realtimeAssigned env0 (Some 1699999080000) [?q] = []"
    "realtimeAssigned env0 (Some 1699999500000) [?q] = [?q]"
    by (simp_all add: realtimeAssigned_def realtimeKept_def realtimeKeyOf_def run_realtime_start
        mk_sample_def skipped_def missing_def key30_def time_eval js_eval)
  have v: "js_add (mean_or_0 (map rxValue [?q])) (mean_or_0 (map txValue [?q])) = Fin 30"
    by (simp add: mk_sample_def rxValue_def txValue_def js_eval fl_eval)
  note t = realtime_returns_thirty_buckets [of env0 _ _ "[?q]" 1699999100000,
      THEN conjunct2, THEN conjunct2, THEN conjunct2, THEN mp]
  have c: "[?q] \<noteq> [] \<and> realtimeStart env0 = Some 1699999100000"
    by (simp add: run_realtime_start)
  have l: "length ?out = 30" using t [OF c] by blast
  have a0: "r_timestamp (?out ! 0) = Some 1699999080000" "r_data_points (?out ! 0) = 0"
    "total_throughput (?out ! 0) = Fin 0"
    using t [OF c, THEN conjunct2, THEN spec, of 0] e by (simp_all add: mean_or_0_def fl_def)
  have a14: "r_timestamp (?out ! 14) = Some 1699999500000" "r_data_points (?out ! 14) = 1"
    "total_throughput (?out ! 14) = Fin 30"
    using t [OF c, THEN conjunct2, THEN spec, of 14] e v by simp_all
  from c l a0 a14 show ?thesis by simp
qed

theorem realtime_empty_array_counterexample:
  "aggregateRealtimeData env0 [] = [] \<and> length (aggregateRealtimeData env0 []) \<noteq> 30"
  by (simp add: aggregateRealtimeData_def)

text \<open>
  C10. A sample that passes the guard, has a valid normalised time at or after the start
  time, and whose key is none of the thirty created keys is assigned to no bucket: the
  result is the result on the input without it, and alone it leaves every point at the
  count \<open>0\<close> and the value \<open>0\<close>. Such a sample lies at or after the end of the last
  bucket, 15 minutes after the first key.
\<close>

theorem realtime_discards_sample_without_bucket:
  "realtimeStart E = Some s \<and> \<not> skipped p \<and>
   normalizeTimestamp E (timestamp p) = JDate (Some t) \<and> s \<le> t \<and>
   Some (t div 30000 * 30000) \<notin> set (realtimeKeys E) \<longrightarrow>
     realtimeKept E p \<and>
     realtimeKeyOf E p = Some (t div 30000 * 30000) \<and>
     s div 30000 * 30000 + 900000 \<le> t \<and>
     (\<forall>k\<in>set (realtimeKeys E). p \<notin> set (realtimeAssigned E k rawData)) \<and>
     aggregateRealtimeData E (xs @ p # ys) = map (realtimePointAt E (xs @ ys)) (realtimeKeys E) \<and>
     (xs @ ys \<noteq> [] \<longrightarrow>
        aggregateRealtimeData E (xs @ p # ys) = aggregateRealtimeData E (xs @ ys)) \<and>
     length (aggregateRealtimeData E [p]) = 30 \<and>
     (\<forall>pt\<in>set (aggregateRealtimeData E [p]). r_data_points pt = 0 \<and> total_throughput pt = Fin 0)"
proof (intro impI)
  assume a: "realtimeStart E = Some s \<and> \<not> skipped p \<and>
   normalizeTimestamp E (timestamp p) = JDate (Some t) \<and> s \<le> t \<and>
   Some (t div 30000 * 30000) \<notin> set (realtimeKeys E)"
  then have st: "realtimeStart E = Some s" and sk: "\<not> skipped p"
    and n: "normalizeTimestamp E (timestamp p) = JDate (Some t)" and le: "s \<le> t"
    and out: "Some (t div 30000 * 30000) \<notin> set (realtimeKeys E)"
    by simp_all
  have kept: "realtimeKept E p"
    using sk le by (simp add: realtimeKept_def st n js_lt_def)
  have key: "realtimeKeyOf E p = Some (t div 30000 * 30000)"
    by (simp add: realtimeKeyOf_def n key30_def)
  have late: "s div 30000 * 30000 + 900000 \<le> t"
    using key_among_created [OF st le] out by simp
  have no: "\<forall>k\<in>set (realtimeKeys E). p \<notin> set (realtimeAssigned E k rawData)"
    using out key by (auto simp: realtimeAssigned_def)
  have pts: "map (realtimePointAt E (xs @ p # ys)) (realtimeKeys E) =
      map (realtimePointAt E (xs @ ys)) (realtimeKeys E)" for xs ys
  proof (rule map_cong [OF refl])
    fix k
    assume "k \<in> set (realtimeKeys E)"
    with out key have "realtimeKeyOf E p \<noteq> k" by auto
    then show "realtimePointAt E (xs @ p # ys) k = realtimePointAt E (xs @ ys) k"
      by (rule realtimePointAt_drop)
  qed
  have all: "aggregateRealtimeData E (xs @ p # ys) =
      map (realtimePointAt E (xs @ ys)) (realtimeKeys E)" for xs ys
    using aggregateRealtimeData_spec [of "xs @ p # ys" E s] st pts [of xs ys] by simp
  have same: "aggregateRealtimeData E (xs @ p # ys) = aggregateRealtimeData E (xs @ ys)"
    if "xs @ ys \<noteq> []"
    using all [of xs ys] aggregateRealtimeData_spec [OF that st] by simp
  have one: "aggregateRealtimeData E [p] = map (realtimePointAt E []) (realtimeKeys E)"
    using all [of "[]" "[]"] by simp
  have len: "length (aggregateRealtimeData E [p]) = 30"
    by (simp add: length_aggregateRealtimeData st)
  have zero: "\<forall>pt\<in>set (aggregateRealtimeData E [p]). r_data_points pt = 0 \<and> total_throughput pt = Fin 0"
    unfolding one by (auto simp: realtimePointAt_empty realtimeAssigned_def)
  from kept key late no all [of xs ys] same len zero
  show "realtimeKept E p \<and>
     realtimeKeyOf E p = Some (t div 30000 * 30000) \<and>
     s div 30000 * 30000 + 900000 \<le> t \<and>
     (\<forall>k\<in>set (realtimeKeys E). p \<notin> set (realtimeAssigned E k rawData)) \<and>
     aggregateRealtimeData E (xs @ p # ys) = map (realtimePointAt E (xs @ ys)) (realtimeKeys E) \<and>
     (xs @ ys \<noteq> [] \<longrightarrow>
        aggregateRealtimeData E (xs @ p # ys) = aggregateRealtimeData E (xs @ ys)) \<and>
     length (aggregateRealtimeData E [p]) = 30 \<and>
     (\<forall>pt\<in>set (aggregateRealtimeData E [p]). r_data_points pt = 0 \<and> total_throughput pt = Fin 0)"
    by blast
qed

text \<open>
  With the clock of \<open>env0\<close> the last bucket ends at 1 699 999 980 000 ms, 20 seconds before
  the clock. The sample at 1 699 999 990 000 ms has that instant as key, which is not
  created: next to the sample of bucket 14 it changes nothing.
\<close>

theorem realtime_discards_sample_without_bucket_witness:
  "realtimeStart env0 = Some 1699999100000 \<and>
   \<not> skipped (mk_sample (JNum (Fin 1699999990000)) (JNum (Fin 7)) (JNum (Fin 8))) \<and>
   normalizeTimestamp env0
     (timestamp (mk_sample (JNum (Fin 1699999990000)) (JNum (Fin 7)) (JNum (Fin 8)))) =
     JDate (Some 1699999990000) \<and>
   Some (1699999990000 div 30000 * 30000) \<notin> set (realtimeKeys env0) \<and>
   aggregateRealtimeData env0
     [mk_sample (JNum (Fin 1699999500000)) (JNum (Fin 10)) (JNum (Fin 20)),
      mk_sample (JNum (Fin 1699999990000)) (JNum (Fin 7)) (JNum (Fin 8))] =
   aggregateRealtimeData env0
     [mk_sample (JNum (Fin 1699999500000)) (JNum (Fin 10)) (JNum (Fin 20))]"
proof -
  let ?q = "mk_sample (JNum (Fin 1699999500000)) (JNum (Fin 10)) (JNum (Fin 20))"
  let ?p = "mk_sample (JNum (Fin 1699999990000)) (JNum (Fin 7)) (JNum (Fin 8))"
  have sk: "\<not> skipped ?p"
    by (simp add: mk_sample_def skipped_def missing_def)
  have n: "normalizeTimestamp env0 (timestamp ?p) = JDate (Some 1699999990000)"
    by (simp add: mk_sample_def time_eval js_eval)
  have out: "Some (1699999990000 div 30000 * 30000) \<notin> set (realtimeKeys env0)"
    using key_among_created [OF run_realtime_start, of 1699999990000] by simp
  have h: "realtimeStart env0 = Some 1699999100000 \<and> \<not> skipped ?p \<and>
      normalizeTimestamp env0 (timestamp ?p) = JDate (Some 1699999990000) \<and>
      (1699999100000::int) \<le> 1699999990000 \<and>
      Some (1699999990000 div 30000 * 30000) \<notin> set (realtimeKeys env0)"
    using run_realtime_start sk n out by simp
  note t = realtime_discards_sample_without_bucket
    [of env0 1699999100000 ?p 1699999990000 "[]" "[?q]" "[]", THEN mp, OF h,
     THEN conjunct2, THEN conjunct2, THEN conjunct2, THEN conjunct2, THEN conjunct2,
     THEN conjunct1, THEN mp]
  have "aggregateRealtimeData env0 ([?q] @ ?p # []) = aggregateRealtimeData env0 ([?q] @ [])"
    by (rule t) simp
  then have "aggregateRealtimeData env0 [?q, ?p] = aggregateRealtimeData env0 [?q]"
    by simp
  with run_realtime_start sk n out show ?thesis by blast
qed

end
